theory Spec2Isabelle
  imports Complex_Main "HOL-Library.Log_Nat"
begin

section \<open>The C++ type \<open>double\<close>\<close>

text \<open>
  Every amount of \<^verbatim>\<open>bankSim.cpp\<close> is a C++ \<^verbatim>\<open>double\<close>. It is modelled as an
  IEEE 754 binary64 value: a finite value (a rational number; the representable ones are
  the fixed points of the rounding function \<open>rnd\<close> below), the two infinities, or NaN.
  Each arithmetic operation computes the exact result and rounds it once, to the nearest
  representable value, ties to the even significand (the default rounding mode; no excess
  precision, no fused multiply-add). The sign of zero and the payload of a NaN are not
  represented: no operation of the program (\<^verbatim>\<open>+\<close>, \<^verbatim>\<open>-\<close>, \<^verbatim>\<open>*\<close> and the
  comparisons) observes them.
\<close>

datatype double = Fin rat | PInf | NInf | NaN

text \<open>\<open>ilog2 a\<close> is the binary exponent of a positive rational: \<open>2^e \<le> a < 2^(e+1)\<close>.\<close>

definition ilog2 :: "rat \<Rightarrow> int" where
  "ilog2 a = (let k = bitlen (fst (quotient_of a)) - bitlen (snd (quotient_of a))
              in if power_int 2 k \<le> a then k else k - 1)"

text \<open>Rounding a rational to the nearest integer, ties to even.\<close>

definition rne :: "rat \<Rightarrow> int" where
  "rne n = (let f = \<lfloor>n\<rfloor>; r = n - of_int f
            in if r < 1 / 2 then f
               else if 1 / 2 < r then f + 1
               else if even f then f else f + 1)"

text \<open>
  The spacing of the binary64 values around a positive rational: 53 significant bits, and
  below \<open>2^-1022\<close> the fixed spacing \<open>2^-1074\<close> of the subnormal range.
\<close>

definition ulp :: "rat \<Rightarrow> rat" where
  "ulp a = power_int 2 (max (ilog2 a) (- 1022) - 52)"

definition rnd_abs :: "rat \<Rightarrow> rat" where
  "rnd_abs a = of_int (rne (a / ulp a)) * ulp a"

text \<open>Rounding to binary64; a magnitude that rounds to \<open>2^1024\<close> or more overflows.\<close>

definition rnd :: "rat \<Rightarrow> double" where
  "rnd q = (if q = 0 then Fin 0
            else if power_int 2 1024 \<le> rnd_abs \<bar>q\<bar> then (if 0 < q then PInf else NInf)
            else Fin (if 0 < q then rnd_abs \<bar>q\<bar> else - rnd_abs \<bar>q\<bar>))"

fun dneg :: "double \<Rightarrow> double" where
  "dneg (Fin x) = Fin (- x)"
| "dneg PInf = NInf"
| "dneg NInf = PInf"
| "dneg NaN = NaN"

text \<open>\<^verbatim>\<open>x + y\<close>\<close>

fun dadd :: "double \<Rightarrow> double \<Rightarrow> double" where
  "dadd (Fin x) (Fin y) = rnd (x + y)"
| "dadd (Fin x) PInf = PInf"
| "dadd (Fin x) NInf = NInf"
| "dadd PInf (Fin y) = PInf"
| "dadd PInf PInf = PInf"
| "dadd PInf NInf = NaN"
| "dadd NInf (Fin y) = NInf"
| "dadd NInf PInf = NaN"
| "dadd NInf NInf = NInf"
| "dadd NaN y = NaN"
| "dadd x NaN = NaN"

text \<open>\<^verbatim>\<open>x - y\<close>\<close>

definition dsub :: "double \<Rightarrow> double \<Rightarrow> double" where
  "dsub x y = dadd x (dneg y)"

text \<open>\<^verbatim>\<open>x * y\<close>\<close>

fun dmul :: "double \<Rightarrow> double \<Rightarrow> double" where
  "dmul (Fin x) (Fin y) = rnd (x * y)"
| "dmul (Fin x) PInf = (if x = 0 then NaN else if 0 < x then PInf else NInf)"
| "dmul (Fin x) NInf = (if x = 0 then NaN else if 0 < x then NInf else PInf)"
| "dmul PInf (Fin y) = (if y = 0 then NaN else if 0 < y then PInf else NInf)"
| "dmul NInf (Fin y) = (if y = 0 then NaN else if 0 < y then NInf else PInf)"
| "dmul PInf PInf = PInf"
| "dmul PInf NInf = NInf"
| "dmul NInf PInf = NInf"
| "dmul NInf NInf = PInf"
| "dmul NaN y = NaN"
| "dmul x NaN = NaN"

text \<open>\<^verbatim>\<open>x < y\<close>: false as soon as an operand is NaN.\<close>

fun dlt :: "double \<Rightarrow> double \<Rightarrow> bool" where
  "dlt (Fin x) (Fin y) = (x < y)"
| "dlt (Fin x) PInf = True"
| "dlt NInf (Fin y) = True"
| "dlt NInf PInf = True"
| "dlt x y = False"

text \<open>\<^verbatim>\<open>x <= y\<close>, \<^verbatim>\<open>x > y\<close> and \<^verbatim>\<open>x >= y\<close>\<close>

fun dle :: "double \<Rightarrow> double \<Rightarrow> bool" where
  "dle (Fin x) (Fin y) = (x \<le> y)"
| "dle (Fin x) PInf = True"
| "dle NInf (Fin y) = True"
| "dle NInf PInf = True"
| "dle PInf PInf = True"
| "dle NInf NInf = True"
| "dle x y = False"

definition dgt :: "double \<Rightarrow> double \<Rightarrow> bool" where
  "dgt x y = dlt y x"

definition dge :: "double \<Rightarrow> double \<Rightarrow> bool" where
  "dge x y = dle y x"


section \<open>Accounts\<close>

text \<open>
  \<^verbatim>\<open>class BankingException : public std::runtime_error\<close>: one exception class, told
  apart by its message. The specification's \<open>NegativeInitialBalance\<close>,
  \<open>BelowMinimumBalance\<close> and \<open>InvalidAmount\<close> are the messages of the two
  constructors and of \<^verbatim>\<open>deposit\<close>/\<^verbatim>\<open>withdraw\<close>.
\<close>

datatype BankingException = BankingException string

text \<open>The data members of \<^verbatim>\<open>class BankAccount\<close>.\<close>

record BankAccount =
  accountNumber :: string
  accountHolderName :: string
  balance :: double

text \<open>An object of one of the two concrete classes: the base subobject and the dynamic type.\<close>

datatype account = Checking BankAccount | Savings BankAccount

text \<open>\<^verbatim>\<open>static constexpr double\<close> members; \<^verbatim>\<open>0.05\<close> denotes the nearest binary64 value.\<close>

definition MONTHLY_FEE :: double where
  "MONTHLY_FEE = Fin 10"

definition OVERDRAFT_LIMIT :: double where
  "OVERDRAFT_LIMIT = Fin 100"

definition INTEREST_RATE :: double where
  "INTEREST_RATE = rnd (5 / 100)"

definition MINIMUM_BALANCE :: double where
  "MINIMUM_BALANCE = Fin 100"

text \<open>
  \<^verbatim>\<open>BankAccount::BankAccount\<close>: the members are initialised, then a negative initial
  balance throws.
\<close>

definition BankAccount_ctor :: "string \<Rightarrow> string \<Rightarrow> double \<Rightarrow> BankingException + BankAccount" where
  "BankAccount_ctor number name initialBalance =
     (if dlt initialBalance (Fin 0)
      then Inl (BankingException ''Initial balance cannot be negative'')
      else Inr \<lparr>accountNumber = number, accountHolderName = name, balance = initialBalance\<rparr>)"

text \<open>\<^verbatim>\<open>CheckingAccount::CheckingAccount\<close>: the base constructor and an empty body.\<close>

definition CheckingAccount_ctor :: "string \<Rightarrow> string \<Rightarrow> double \<Rightarrow> BankingException + account" where
  "CheckingAccount_ctor number name initialBalance =
     (case BankAccount_ctor number name initialBalance of
        Inl e \<Rightarrow> Inl e
      | Inr base \<Rightarrow> Inr (Checking base))"

text \<open>
  \<^verbatim>\<open>SavingsAccount::SavingsAccount\<close>: the base constructor runs first; when it throws
  the body is never entered. The message ends in \<^verbatim>\<open>std::to_string(100.0)\<close>.
\<close>

definition SavingsAccount_ctor :: "string \<Rightarrow> string \<Rightarrow> double \<Rightarrow> BankingException + account" where
  "SavingsAccount_ctor number name initialBalance =
     (case BankAccount_ctor number name initialBalance of
        Inl e \<Rightarrow> Inl e
      | Inr base \<Rightarrow>
          if dlt initialBalance MINIMUM_BALANCE
          then Inl (BankingException ''Minimum initial balance for Savings is $100.000000'')
          else Inr (Savings base))"

text \<open>
  \<^verbatim>\<open>BankAccount::deposit\<close>. A member function that may throw yields the exception or
  the returned value, together with the object as the call leaves it.
\<close>

definition BankAccount_deposit :: "BankAccount \<Rightarrow> double \<Rightarrow> (BankingException + unit) \<times> BankAccount" where
  "BankAccount_deposit a amount =
     (if dle amount (Fin 0)
      then (Inl (BankingException ''Deposit amount must be positive''), a)
      else (Inr (), a\<lparr>balance := dadd (balance a) amount\<rparr>))"

text \<open>\<^verbatim>\<open>BankAccount::withdraw\<close>\<close>

definition BankAccount_withdraw :: "BankAccount \<Rightarrow> double \<Rightarrow> (BankingException + bool) \<times> BankAccount" where
  "BankAccount_withdraw a amount =
     (if dle amount (Fin 0)
      then (Inl (BankingException ''Withdrawal amount must be positive''), a)
      else if dgt amount (balance a) then (Inr False, a)
      else (Inr True, a\<lparr>balance := dsub (balance a) amount\<rparr>))"

text \<open>\<^verbatim>\<open>CheckingAccount::withdraw\<close>\<close>

definition CheckingAccount_withdraw :: "BankAccount \<Rightarrow> double \<Rightarrow> (BankingException + bool) \<times> BankAccount" where
  "CheckingAccount_withdraw a amount =
     (if dle amount (Fin 0)
      then (Inl (BankingException ''Withdrawal amount must be positive''), a)
      else if dgt amount (dadd (balance a) OVERDRAFT_LIMIT) then (Inr False, a)
      else (Inr True, a\<lparr>balance := dsub (balance a) amount\<rparr>))"

text \<open>\<^verbatim>\<open>CheckingAccount::applyMonthlyFee\<close> and \<^verbatim>\<open>SavingsAccount::applyMonthlyFee\<close>\<close>

definition CheckingAccount_applyMonthlyFee :: "BankAccount \<Rightarrow> BankAccount" where
  "CheckingAccount_applyMonthlyFee a =
     (if dge (balance a) MONTHLY_FEE then a\<lparr>balance := dsub (balance a) MONTHLY_FEE\<rparr> else a)"

definition SavingsAccount_applyMonthlyFee :: "BankAccount \<Rightarrow> BankAccount" where
  "SavingsAccount_applyMonthlyFee a =
     a\<lparr>balance := dadd (balance a) (dmul (balance a) INTEREST_RATE)\<rparr>"

text \<open>The virtual calls: \<^verbatim>\<open>deposit\<close> is overridden nowhere, \<^verbatim>\<open>withdraw\<close> by
  \<^verbatim>\<open>CheckingAccount\<close>, \<^verbatim>\<open>applyMonthlyFee\<close> by both classes.\<close>

fun base :: "account \<Rightarrow> BankAccount" where
  "base (Checking a) = a"
| "base (Savings a) = a"

fun deposit :: "account \<Rightarrow> double \<Rightarrow> (BankingException + unit) \<times> account" where
  "deposit (Checking a) amount = map_prod id Checking (BankAccount_deposit a amount)"
| "deposit (Savings a) amount = map_prod id Savings (BankAccount_deposit a amount)"

fun withdraw :: "account \<Rightarrow> double \<Rightarrow> (BankingException + bool) \<times> account" where
  "withdraw (Checking a) amount = map_prod id Checking (CheckingAccount_withdraw a amount)"
| "withdraw (Savings a) amount = map_prod id Savings (BankAccount_withdraw a amount)"

fun applyMonthlyFee :: "account \<Rightarrow> account" where
  "applyMonthlyFee (Checking a) = Checking (CheckingAccount_applyMonthlyFee a)"
| "applyMonthlyFee (Savings a) = Savings (SavingsAccount_applyMonthlyFee a)"

definition getBalance :: "account \<Rightarrow> double" where
  "getBalance a = balance (base a)"

definition getAccountNumber :: "account \<Rightarrow> string" where
  "getAccountNumber a = accountNumber (base a)"

definition getAccountHolderName :: "account \<Rightarrow> string" where
  "getAccountHolderName a = accountHolderName (base a)"


text \<open>The two accounts that \<^verbatim>\<open>main\<close> creates.\<close>

definition john :: BankAccount where
  "john = \<lparr>accountNumber = ''CH001'', accountHolderName = ''John Doe'', balance = Fin 500\<rparr>"

definition jane :: BankAccount where
  "jane = \<lparr>accountNumber = ''SV001'', accountHolderName = ''Jane Smith'', balance = Fin 1000\<rparr>"


section \<open>The bank\<close>

text \<open>
  \<^verbatim>\<open>std::vector<std::unique_ptr<BankAccount>> accounts\<close>: the bank holds owning
  pointers, in the order of registration; the objects live in a store, which maps an
  address to the object it holds. \<^verbatim>\<open>findAccount\<close> hands out the stored address
  itself (\<^verbatim>\<open>account.get()\<close>), \<^verbatim>\<open>nullptr\<close> being \<open>None\<close>.
\<close>

type_synonym addr = nat

type_synonym store = "addr \<Rightarrow> account"

record Bank =
  accounts :: "addr list"

text \<open>\<^verbatim>\<open>Bank::addAccount\<close>: \<^verbatim>\<open>accounts.push_back(std::move(account))\<close>\<close>

definition addAccount :: "Bank \<Rightarrow> addr \<Rightarrow> Bank" where
  "addAccount b p = b\<lparr>accounts := accounts b @ [p]\<rparr>"

text \<open>\<^verbatim>\<open>Bank::findAccount\<close>: the loop over the vector, from the front.\<close>

fun findAccount_loop :: "store \<Rightarrow> addr list \<Rightarrow> string \<Rightarrow> addr option" where
  "findAccount_loop s [] number = None"
| "findAccount_loop s (p # ps) number =
     (if getAccountNumber (s p) = number then Some p else findAccount_loop s ps number)"

definition findAccount :: "store \<Rightarrow> Bank \<Rightarrow> string \<Rightarrow> addr option" where
  "findAccount s b number = findAccount_loop s (accounts b) number"

text \<open>
  \<^verbatim>\<open>Bank::processMonthlyUpdates\<close>: the loop calls \<^verbatim>\<open>account->applyMonthlyFee()\<close>
  on each element in turn; the result is the store and the bank afterwards.
\<close>

fun processMonthlyUpdates_loop :: "store \<Rightarrow> addr list \<Rightarrow> store" where
  "processMonthlyUpdates_loop s [] = s"
| "processMonthlyUpdates_loop s (p # ps) =
     processMonthlyUpdates_loop (s(p := applyMonthlyFee (s p))) ps"

definition processMonthlyUpdates :: "store \<Rightarrow> Bank \<Rightarrow> store \<times> Bank" where
  "processMonthlyUpdates s b = (processMonthlyUpdates_loop s (accounts b), b)"

text \<open>
  \<^verbatim>\<open>displayAccountInfo\<close> and \<^verbatim>\<open>Bank::displayAllAccounts\<close>: the values written to
  the stream for each account, in the order of the vector (number, holder, balance and the
  account type; the formatting of the text is not modelled).
\<close>

fun displayAccountInfo :: "account \<Rightarrow> string \<times> string \<times> double \<times> string" where
  "displayAccountInfo (Checking a) = (accountNumber a, accountHolderName a, balance a, ''Checking'')"
| "displayAccountInfo (Savings a) = (accountNumber a, accountHolderName a, balance a, ''Savings'')"

definition displayAllAccounts :: "store \<Rightarrow> Bank \<Rightarrow> (string \<times> string \<times> double \<times> string) list" where
  "displayAllAccounts s b = map (\<lambda>p. displayAccountInfo (s p)) (accounts b)"

text \<open>
  The calls \<^verbatim>\<open>p->deposit(amount)\<close> and \<^verbatim>\<open>p->withdraw(amount)\<close> through a
  pointer, as \<^verbatim>\<open>main\<close> makes them on the result of \<^verbatim>\<open>findAccount\<close>: the object at
  \<open>p\<close> is replaced by the object after the call.
\<close>

definition call_deposit :: "store \<Rightarrow> addr \<Rightarrow> double \<Rightarrow> (BankingException + unit) \<times> store" where
  "call_deposit s p amount = map_prod id (\<lambda>a. s(p := a)) (deposit (s p) amount)"

definition call_withdraw :: "store \<Rightarrow> addr \<Rightarrow> double \<Rightarrow> (BankingException + bool) \<times> store" where
  "call_withdraw s p amount = map_prod id (\<lambda>a. s(p := a)) (withdraw (s p) amount)"


text \<open>
  The state that \<^verbatim>\<open>main\<close> builds: the Checking account at address 0 and the Savings
  account at address 1, registered in this order.
\<close>

definition main_store :: store where
  "main_store = (\<lambda>p. if p = 0 then Checking john else Savings jane)"

definition main_bank :: Bank where
  "main_bank = addAccount (addAccount \<lparr>accounts = []\<rparr> 0) 1"


section \<open>Sequences of operations on one account\<close>

text \<open>
  The three operations that change an account after its construction; a caller that
  catches the exception of a call goes on with the object as the call left it.
\<close>

datatype operation = Deposit double | Withdraw double | ApplyMonthlyFee

fun perform :: "account \<Rightarrow> operation \<Rightarrow> account" where
  "perform a (Deposit amount) = snd (deposit a amount)"
| "perform a (Withdraw amount) = snd (withdraw a amount)"
| "perform a ApplyMonthlyFee = applyMonthlyFee a"

fun perform_all :: "account \<Rightarrow> operation list \<Rightarrow> account" where
  "perform_all a [] = a"
| "perform_all a (x # xs) = perform_all (perform a x) xs"

text \<open>
  \<open>exact_sum x y\<close>: both operands are finite and their sum is a binary64 value, so that
  \<^verbatim>\<open>x + y\<close> is computed without rounding.
\<close>

fun exact_sum :: "double \<Rightarrow> double \<Rightarrow> bool" where
  "exact_sum (Fin x) (Fin y) = (rnd (x + y) = Fin (x + y))"
| "exact_sum x y = False"

text \<open>
  \<open>rounded_up x y\<close>: the binary64 sum of two finite values is greater than their exact sum
  (or overflows to \<open>+\<infinity>\<close>).
\<close>

fun rounded_up :: "double \<Rightarrow> double \<Rightarrow> bool" where
  "rounded_up (Fin x) (Fin y) = dlt (Fin (x + y)) (rnd (x + y))"
| "rounded_up x y = False"

text \<open>
  \<open>within_limit a x\<close>: if \<open>x\<close> is a withdrawal that the account grants from a finite
  balance, the amount is not greater than the exact sum of the balance and the overdraft
  limit of 100. \<open>limit_not_rounded_up a x\<close>: if \<open>x\<close> is a withdrawal that the account
  grants, the sum \<^verbatim>\<open>balance + OVERDRAFT_LIMIT\<close> of the overdraft test was not rounded up.
  Withdrawals that throw or are refused, and all other operations, satisfy both.
\<close>

fun within_limit :: "account \<Rightarrow> operation \<Rightarrow> bool" where
  "within_limit a (Withdraw amount) =
     (fst (withdraw a amount) = Inr True \<longrightarrow>
        (case getBalance a of Fin q \<Rightarrow> \<not> dlt (Fin (q + 100)) amount | _ \<Rightarrow> True))"
| "within_limit a x = True"

fun limit_not_rounded_up :: "account \<Rightarrow> operation \<Rightarrow> bool" where
  "limit_not_rounded_up a (Withdraw amount) =
     (fst (withdraw a amount) = Inr True \<longrightarrow> \<not> rounded_up (getBalance a) OVERDRAFT_LIMIT)"
| "limit_not_rounded_up a x = True"

text \<open>\<open>along P a xs\<close>: \<open>P\<close> holds of every operation of \<open>xs\<close> and the account it meets.\<close>

fun along :: "(account \<Rightarrow> operation \<Rightarrow> bool) \<Rightarrow> account \<Rightarrow> operation list \<Rightarrow> bool" where
  "along P a [] = True"
| "along P a (x # xs) = (P a x \<and> along P (perform a x) xs)"

text \<open>An operation whose amount, if it has one, is a finite number.\<close>

fun finite_amount :: "operation \<Rightarrow> bool" where
  "finite_amount (Deposit (Fin y)) = True"
| "finite_amount (Withdraw (Fin y)) = True"
| "finite_amount ApplyMonthlyFee = True"
| "finite_amount x = False"


section \<open>Facts about the rounding\<close>

lemma int_pow2_bounds:
  fixes p :: int
  assumes "2 ^ m \<le> p" and "p < 2 ^ n"
  shows "(2::rat) ^ m \<le> of_int p" and "(of_int p :: rat) < 2 ^ n"
proof -
  have "(of_int (2 ^ m) :: rat) \<le> of_int p" using assms(1) by (simp only: of_int_le_iff)
  then show "(2::rat) ^ m \<le> of_int p" by simp
  have "(of_int p :: rat) < of_int (2 ^ n)" using assms(2) by (simp only: of_int_less_iff)
  then show "(of_int p :: rat) < 2 ^ n" by simp
qed

lemma ilog2_bounds:
  assumes "0 < a"
  shows "power_int 2 (ilog2 a) \<le> a" and "a < power_int 2 (ilog2 a + 1)"
proof -
  obtain p q where pq: "quotient_of a = (p, q)" by (cases "quotient_of a")
  have q: "0 < q" using pq by (rule quotient_of_denom_pos)
  have a: "a = of_int p / of_int q" using pq by (rule quotient_of_div)
  have p: "0 < p" using assms q a by (simp add: zero_less_divide_iff)
  define bp where "bp = bitlen p"
  define bq where "bq = bitlen q"
  have bp1: "1 \<le> bp" using p bitlen_eq_zero_iff[of p] bitlen_nonneg[of p] unfolding bp_def by linarith
  have bq1: "1 \<le> bq" using q bitlen_eq_zero_iff[of q] bitlen_nonneg[of q] unfolding bq_def by linarith
  have P: "2 ^ nat (bp - 1) \<le> p" "p < 2 ^ nat bp" using bitlen_bounds[OF p] by (simp_all add: bp_def)
  have Q: "2 ^ nat (bq - 1) \<le> q" "q < 2 ^ nat bq" using bitlen_bounds[OF q] by (simp_all add: bq_def)
  have Pr: "power_int 2 (bp - 1) \<le> (of_int p :: rat)" "(of_int p :: rat) < power_int 2 bp"
    using int_pow2_bounds[OF P] bp1 by (simp_all add: power_int_def)
  have Qr: "power_int 2 (bq - 1) \<le> (of_int q :: rat)" "(of_int q :: rat) < power_int 2 bq"
    using int_pow2_bounds[OF Q] bq1 by (simp_all add: power_int_def)
  have qpos: "(0::rat) < of_int q" using q by simp
  have lo: "power_int 2 (bp - bq - 1) < a"
  proof -
    have "power_int 2 (bp - bq - 1) * of_int q < power_int 2 (bp - bq - 1) * (power_int 2 bq :: rat)"
      using Qr(2) by (intro mult_strict_left_mono) simp_all
    also have "\<dots> = power_int 2 (bp - 1)"
      by (simp flip: power_int_add)
    also have "\<dots> \<le> of_int p" by (rule Pr(1))
    finally show ?thesis using qpos by (simp add: a pos_less_divide_eq)
  qed
  have hi: "a < power_int 2 (bp - bq + 1)"
  proof -
    have "(of_int p :: rat) < power_int 2 bp" by (rule Pr(2))
    also have "\<dots> = power_int 2 (bp - bq + 1) * power_int 2 (bq - 1)"
      by (simp flip: power_int_add)
    also have "\<dots> \<le> power_int 2 (bp - bq + 1) * of_int q"
      using Qr(1) by (intro mult_left_mono) simp_all
    finally show ?thesis using qpos by (simp add: a pos_divide_less_eq)
  qed
  have il: "ilog2 a = (if power_int 2 (bp - bq) \<le> a then bp - bq else bp - bq - 1)"
    by (simp add: ilog2_def pq bp_def bq_def)
  show "power_int 2 (ilog2 a) \<le> a" using lo by (simp add: il)
  show "a < power_int 2 (ilog2 a + 1)" using hi by (simp add: il)
qed

lemma ilog2_eqI:
  assumes "power_int 2 e \<le> a" and "a < power_int 2 (e + 1)"
  shows "ilog2 a = e"
proof -
  have a: "0 < a" using assms(1) by (rule less_le_trans[rotated]) simp
  note b = ilog2_bounds[OF a]
  have "\<not> ilog2 a < e"
  proof
    assume "ilog2 a < e"
    then have "power_int (2::rat) (ilog2 a + 1) \<le> power_int 2 e"
      by (intro power_int_increasing) simp_all
    with b(2) assms(1) show False by simp
  qed
  moreover have "\<not> e < ilog2 a"
  proof
    assume "e < ilog2 a"
    then have "power_int (2::rat) (e + 1) \<le> power_int 2 (ilog2 a)"
      by (intro power_int_increasing) simp_all
    with b(1) assms(2) show False by simp
  qed
  ultimately show ?thesis by simp
qed


lemma rne_near:
  assumes "\<bar>n - of_int m\<bar> < 1 / 2"
  shows "rne n = m"
proof -
  consider "of_int m \<le> n" | "n < of_int m" by linarith
  then show ?thesis
  proof cases
    case 1
    have "\<lfloor>n\<rfloor> = m" using 1 assms by (intro floor_unique) linarith+
    then show ?thesis using 1 assms by (simp add: rne_def Let_def)
  next
    case 2
    have f: "\<lfloor>n\<rfloor> = m - 1" using 2 assms by (intro floor_unique) (simp, linarith)+
    have "1 / 2 < n - of_int (m - 1)" using 2 assms by simp
    then show ?thesis by (simp add: rne_def Let_def f)
  qed
qed

lemma rne_tie:
  assumes "\<bar>n - of_int m\<bar> = 1 / 2" and "even m"
  shows "rne n = m"
proof -
  consider "n = of_int m + 1 / 2" | "n = of_int m - 1 / 2" using assms(1) by linarith
  then show ?thesis
  proof cases
    case 1
    have "\<lfloor>n\<rfloor> = m" unfolding 1 by (intro floor_unique) simp_all
    then show ?thesis using assms(2) by (simp add: rne_def Let_def 1)
  next
    case 2
    have f: "\<lfloor>n\<rfloor> = m - 1" unfolding 2 by (intro floor_unique) simp_all
    show ?thesis using assms(2) by (simp add: rne_def Let_def f) (simp add: 2)
  qed
qed

lemma rne_of_int: "rne (of_int m) = m"
  by (rule rne_near) simp

lemma rne_nonneg: "0 \<le> n \<Longrightarrow> 0 \<le> rne n"
  by (auto simp: rne_def Let_def)

lemma ulp_pos: "0 < ulp a"
  by (simp add: ulp_def)

lemma rnd_abs_nonneg: "0 \<le> a \<Longrightarrow> 0 \<le> rnd_abs a"
  using ulp_pos[of a] by (simp add: rnd_abs_def rne_nonneg)

lemma rnd_abs_eval:
  assumes "power_int 2 e \<le> a" and "a < power_int 2 (e + 1)"
    and "u = power_int 2 (max e (- 1022) - 52)"
    and "\<bar>a / u - of_int m\<bar> < 1 / 2 \<or> \<bar>a / u - of_int m\<bar> = 1 / 2 \<and> even m"
  shows "rnd_abs a = of_int m * u"
proof -
  have "ulp a = u" by (simp add: ulp_def ilog2_eqI[OF assms(1,2)] assms(3))
  moreover have "rne (a / u) = m" using assms(4) rne_near rne_tie by blast
  ultimately show ?thesis by (simp add: rnd_abs_def)
qed

lemma rnd_pos_eval:
  assumes "power_int 2 e \<le> q" and "q < power_int 2 (e + 1)"
    and "u = power_int 2 (max e (- 1022) - 52)"
    and "\<bar>q / u - of_int m\<bar> < 1 / 2 \<or> \<bar>q / u - of_int m\<bar> = 1 / 2 \<and> even m"
    and "of_int m * u < power_int 2 1024"
  shows "rnd q = Fin (of_int m * u)"
proof -
  have q: "0 < q" using assms(1) by (rule less_le_trans[rotated]) simp
  then have "rnd_abs \<bar>q\<bar> = of_int m * u"
    using rnd_abs_eval[OF assms(1-4)] by simp
  then show ?thesis using q assms(5) by (simp add: rnd_def)
qed

lemma rnd_minus: "rnd (- q) = dneg (rnd q)"
  by (cases "q = 0"; cases "0 < q") (simp_all add: rnd_def)

lemma rne_le_int:
  assumes "n \<le> of_int N"
  shows "rne n \<le> N"
proof (cases "n = of_int N")
  case True
  then show ?thesis by (simp add: rne_of_int)
next
  case False
  with assms have "n < of_int N" by simp
  then have "\<lfloor>n\<rfloor> < N" by (simp add: floor_less_iff)
  then show ?thesis by (simp add: rne_def Let_def)
qed

lemma ilog2_less:
  assumes "0 < a" and "a < power_int 2 k"
  shows "ilog2 a < k"
proof (rule ccontr)
  assume "\<not> ilog2 a < k"
  then have "power_int (2::rat) k \<le> power_int 2 (ilog2 a)"
    by (intro power_int_increasing) simp_all
  with ilog2_bounds(1)[OF assms(1)] assms(2) show False by simp
qed

lemma rnd_abs_le:
  assumes "a \<le> c" and "c / ulp a = of_int N"
  shows "rnd_abs a \<le> c"
proof -
  have u: "0 < ulp a" by (rule ulp_pos)
  have "a / ulp a \<le> c / ulp a" using assms(1) u by (simp add: divide_right_mono)
  then have "rne (a / ulp a) \<le> N" unfolding assms(2) by (rule rne_le_int)
  then have "(of_int (rne (a / ulp a)) :: rat) \<le> of_int N" by simp
  then have "of_int (rne (a / ulp a)) * ulp a \<le> of_int N * ulp a"
    using u by (simp add: mult_right_mono)
  also have "of_int N * ulp a = c" using u assms(2) by (simp add: field_simps)
  finally show ?thesis by (simp add: rnd_abs_def)
qed

lemma rnd_abs_le_100:
  assumes "0 < a" and "a \<le> 100"
  shows "rnd_abs a \<le> 100"
proof -
  have "a < power_int 2 7" using assms(2) by simp
  then have e: "ilog2 a < 7" by (rule ilog2_less[OF assms(1)])
  define j where "j = max (ilog2 a) (- 1022) - 52"
  have j: "j \<le> 0" using e by (simp add: j_def)
  have u: "ulp a = power_int 2 j" by (simp add: ulp_def j_def)
  have "100 / ulp a = 100 * power_int 2 (- j)"
    by (simp add: u power_int_minus divide_inverse)
  also have "\<dots> = of_int (100 * 2 ^ nat (- j))"
    using j by (simp add: power_int_def)
  finally show ?thesis using assms(2) by (rule rnd_abs_le[rotated])
qed

lemma rnd_nonneg:
  assumes "0 \<le> q"
  shows "\<not> dlt (rnd q) (Fin 0)"
  using assms rnd_abs_nonneg[of "\<bar>q\<bar>"] by (simp add: rnd_def)

lemma rnd_ge_minus_100:
  assumes "- 100 \<le> q"
  shows "\<not> dlt (rnd q) (Fin (- 100))"
proof (cases "0 \<le> q")
  case True
  then show ?thesis using rnd_abs_nonneg[of "\<bar>q\<bar>"] by (simp add: rnd_def)
next
  case False
  then have "0 < \<bar>q\<bar>" "\<bar>q\<bar> \<le> 100" using assms by simp_all
  then have "rnd_abs \<bar>q\<bar> \<le> 100" by (rule rnd_abs_le_100)
  then show ?thesis using False by (simp add: rnd_def)
qed

text \<open>
  The binary64 values: every \<open>m * 2^k\<close> with a significand below \<open>2^53\<close> and an
  exponent in range is a fixed point of the rounding.
\<close>

lemma rnd_dyadic:
  assumes "0 < m" and "m < 2 ^ 53" and "- 1074 \<le> k"
    and "(of_int m :: rat) * power_int 2 k < power_int 2 1024"
  shows "rnd (of_int m * power_int 2 k) = Fin (of_int m * power_int 2 k)"
proof -
  define q :: rat where "q = of_int m * power_int 2 k"
  have q: "0 < q" using assms(1) by (simp add: q_def)
  have m53: "(of_int m :: rat) < 2 ^ 53"
    using int_pow2_bounds(2)[OF _ assms(2), of 0] assms(1) by simp
  have "q < 2 ^ 53 * power_int 2 k"
    unfolding q_def using m53 by (intro mult_strict_right_mono) simp_all
  also have "\<dots> = power_int 2 (53 + k)"
    by (simp add: power_int_add)
  finally have "ilog2 q < 53 + k" by (rule ilog2_less[OF q])
  define j where "j = max (ilog2 q) (- 1022) - 52"
  have j: "j \<le> k" using \<open>ilog2 q < 53 + k\<close> assms(3) by (simp add: j_def)
  have u: "ulp q = power_int 2 j" by (simp add: ulp_def j_def)
  have "q / ulp q = q / power_int 2 j"
    by (simp only: u)
  also have "\<dots> = of_int m * power_int 2 (k - j)"
    by (simp add: q_def power_int_diff)
  also have "\<dots> = of_int (m * 2 ^ nat (k - j))"
    using j by (simp add: power_int_def)
  finally have "rne (q / ulp q) = m * 2 ^ nat (k - j)" by (simp only: rne_of_int)
  then have "rnd_abs q = of_int (m * 2 ^ nat (k - j)) * power_int 2 j"
    by (simp add: rnd_abs_def u)
  also have "\<dots> = of_int m * (power_int 2 (k - j) * power_int 2 j)"
    using j by (simp add: power_int_def)
  also have "\<dots> = q"
    by (simp add: q_def flip: power_int_add)
  finally have r: "rnd_abs q = q" .
  have "q < power_int 2 1024" using assms(4) by (simp add: q_def)
  then show ?thesis using q r by (simp add: rnd_def flip: q_def)
qed

lemma rnd_int:
  assumes "\<bar>m\<bar> < 2 ^ 53"
  shows "rnd (of_int m) = Fin (of_int m)"
proof -
  consider "m = 0" | "0 < m" | "m < 0" by linarith
  then show ?thesis
  proof cases
    case 1
    then show ?thesis by (simp add: rnd_def)
  next
    case 2
    then show ?thesis using rnd_dyadic[of m 0] assms by simp
  next
    case 3
    then have "rnd (of_int (- m)) = Fin (of_int (- m))"
      using rnd_dyadic[of "- m" 0] assms by simp
    then have "rnd (- of_int m) = Fin (- of_int m)" by simp
    then show ?thesis unfolding rnd_minus by (cases "rnd (of_int m)") simp_all
  qed
qed


text \<open>The rounding is to a nearest value: the error is at most half the spacing.\<close>

lemma rne_error: "\<bar>of_int (rne n) - n\<bar> \<le> 1 / 2"
proof -
  have "of_int \<lfloor>n\<rfloor> \<le> n" and "n < of_int \<lfloor>n\<rfloor> + 1" by linarith+
  then show ?thesis by (simp add: rne_def Let_def)
qed

lemma rnd_abs_error: "\<bar>rnd_abs a - a\<bar> \<le> ulp a / 2"
proof -
  have u: "0 < ulp a" by (rule ulp_pos)
  have "rnd_abs a - a = (of_int (rne (a / ulp a)) - a / ulp a) * ulp a"
    using u by (simp add: rnd_abs_def field_simps)
  then have "\<bar>rnd_abs a - a\<bar> = \<bar>of_int (rne (a / ulp a)) - a / ulp a\<bar> * ulp a"
    using u by (simp add: abs_mult)
  also have "\<dots> \<le> 1 / 2 * ulp a"
    using u by (intro mult_right_mono rne_error) simp
  finally show ?thesis by simp
qed

text \<open>The finite results of the rounding are binary64 values: rounding them again changes nothing.\<close>

lemma rnd_abs_idem:
  assumes "0 < a" and "rnd_abs a < power_int 2 1024"
  shows "rnd (rnd_abs a) = Fin (rnd_abs a)"
proof -
  define j where "j = max (ilog2 a) (- 1022) - 52"
  define M where "M = rne (a / ulp a)"
  have u: "ulp a = power_int 2 j" by (simp add: ulp_def j_def)
  have w: "rnd_abs a = of_int M * power_int 2 j" by (simp add: rnd_abs_def M_def u)
  have j: "- 1074 \<le> j" by (simp add: j_def)
  have "a < power_int 2 (ilog2 a + 1)" using assms(1) by (rule ilog2_bounds)
  also have "\<dots> \<le> power_int 2 (j + 53)"
    by (intro power_int_increasing) (simp_all add: j_def)
  also have "\<dots> = 2 ^ 53 * power_int 2 j" by (simp add: power_int_add)
  finally have "a / ulp a < 2 ^ 53" by (simp add: u pos_divide_less_eq)
  then have "a / ulp a \<le> of_int (2 ^ 53)" by simp
  then have M53: "M \<le> 2 ^ 53" unfolding M_def by (rule rne_le_int)
  have M0: "0 \<le> M" unfolding M_def using assms(1) ulp_pos[of a] by (intro rne_nonneg) simp
  consider "M = 0" | "0 < M" "M < 2 ^ 53" | "M = 2 ^ 53" using M0 M53 by linarith
  then show ?thesis
  proof cases
    case 1
    then show ?thesis by (simp add: w rnd_def)
  next
    case 2
    then show ?thesis using rnd_dyadic[of M j] j assms(2) by (simp add: w)
  next
    case 3
    have e: "of_int M * power_int 2 j = of_int 1 * (power_int 2 (j + 53) :: rat)"
      by (simp add: 3 power_int_add)
    show ?thesis using rnd_dyadic[of 1 "j + 53"] j assms(2) unfolding w e by simp
  qed
qed

lemma rnd_idem:
  assumes "rnd q = Fin v"
  shows "rnd v = Fin v"
proof (cases "q = 0")
  case True
  with assms show ?thesis by (simp add: rnd_def)
next
  case False
  then have a: "0 < \<bar>q\<bar>" by simp
  from assms False have lt: "rnd_abs \<bar>q\<bar> < power_int 2 1024"
    and v: "v = (if 0 < q then rnd_abs \<bar>q\<bar> else - rnd_abs \<bar>q\<bar>)"
    by (auto simp: rnd_def split: if_splits)
  note i = rnd_abs_idem[OF a lt]
  show ?thesis
  proof (cases "0 < q")
    case True
    then show ?thesis using i by (simp add: v)
  next
    case False
    then show ?thesis using i by (simp add: v rnd_minus)
  qed
qed

section \<open>Facts about the operations\<close>

lemma INTEREST_RATE_value: "INTEREST_RATE = Fin (3602879701896397 / 72057594037927936)"
  unfolding INTEREST_RATE_def
  using rnd_pos_eval[where q = "5 / 100" and e = "- 5" and m = 7205759403792794, OF _ _ refl]
  by simp

lemma dgt_zero_not_dle: "dgt x (Fin 0) \<Longrightarrow> \<not> dle x (Fin 0)"
  by (cases x) (auto simp: dgt_def)

lemma dlt_not_dge: "dlt x y \<Longrightarrow> \<not> dge x y"
  by (cases x; cases y) (auto simp: dge_def)

lemma dsub_Fin: "dsub (Fin b) (Fin x) = rnd (b - x)"
  by (simp add: dsub_def)

lemma rnd_0: "rnd 0 = Fin 0"
  by (simp add: rnd_def)

text \<open>Roundings at the inputs of the examples below.\<close>

lemma rnd_2p59_100: "rnd (2 ^ 59 + 100) = Fin (2 ^ 59 + 128)"
  using rnd_pos_eval[where q = "2 ^ 59 + 100" and e = 59 and m = "2 ^ 52 + 1", OF _ _ refl]
  by simp

lemma rnd_2p59_128: "rnd (2 ^ 59 + 128) = Fin (2 ^ 59 + 128)"
  using rnd_dyadic[of "2 ^ 52 + 1" 7] by simp

lemma rnd_2p59: "rnd (2 ^ 59) = Fin (2 ^ 59)"
  using rnd_dyadic[of 1 59] by simp

lemma rnd_2p54: "rnd (2 ^ 54) = Fin (2 ^ 54)"
  using rnd_dyadic[of 1 54] by simp

lemma rnd_2p55: "rnd (2 ^ 55) = Fin (2 ^ 55)"
  using rnd_dyadic[of 1 55] by simp

lemma rnd_2p54_minus_1: "rnd (2 ^ 54 - 1) = Fin (2 ^ 54)"
  using rnd_pos_eval[where q = "2 ^ 54 - 1" and e = 53 and m = "2 ^ 53", OF _ _ refl]
  by simp

lemma rnd_2p54_plus_1: "rnd (2 ^ 54 + 1) = Fin (2 ^ 54)"
  using rnd_pos_eval[where q = "2 ^ 54 + 1" and e = 54 and m = "2 ^ 52", OF _ _ refl]
  by simp

lemma rnd_2p55_minus_10: "rnd (2 ^ 55 - 10) = Fin (2 ^ 55 - 8)"
  using rnd_pos_eval[where q = "2 ^ 55 - 10" and e = 54 and m = "2 ^ 53 - 2", OF _ _ refl]
  by simp

lemma interest_101: "dmul (Fin 101) INTEREST_RATE = Fin (1421448632388813 / 281474976710656)"
  unfolding INTEREST_RATE_value
  using rnd_pos_eval[where q = "101 * (3602879701896397 / 72057594037927936)" and e = 2
      and m = 5685794529555252, OF _ _ refl]
  by simp

lemma balance_101: "dadd (Fin 101) (Fin (1421448632388813 / 281474976710656)) =
    Fin (7462605320041267 / 70368744177664)"
  using rnd_pos_eval[where q = "101 + 1421448632388813 / 281474976710656" and e = 6
      and m = 7462605320041267, OF _ _ refl]
  by simp

lemma interest_2p53: "dmul (Fin (2 ^ 53)) INTEREST_RATE = Fin (3602879701896397 / 8)"
  unfolding INTEREST_RATE_value
  using rnd_dyadic[of 7205759403792794 "- 4"] by simp

lemma balance_2p53: "dadd (Fin (2 ^ 53)) (Fin (3602879701896397 / 8)) = Fin 9457559217478042"
  using rnd_pos_eval[where q = "2 ^ 53 + 3602879701896397 / 8" and e = 53
      and m = 4728779608739021, OF _ _ refl]
  by simp

lemma interest_1000: "dmul (Fin 1000) INTEREST_RATE = Fin 50"
  unfolding INTEREST_RATE_value
  using rnd_pos_eval[where q = "1000 * (3602879701896397 / 72057594037927936)" and e = 5
      and m = "50 * 2 ^ 47", OF _ _ refl]
  by simp

section \<open>Withdrawals\<close>

text \<open>
  Claim C1 (Checking withdrawal), as the code has it in double arithmetic. For every
  Checking account and every amount greater than zero, \<^verbatim>\<open>withdraw\<close> returns
  \<open>false\<close> and leaves the object unchanged when the amount is greater than the binary64
  sum \<open>balance + OVERDRAFT_LIMIT\<close>, and otherwise returns \<open>true\<close> and sets the balance
  to the binary64 difference \<open>balance - amount\<close>. When the balance and the amount are
  finite and the sum \<open>balance + 100\<close> is computed without rounding, the withdrawal succeeds
  if and only if \<open>amount \<le> balance + 100\<close>, a successful withdrawal leaves a balance that
  is not below \<open>-100\<close>, and the new balance is exactly \<open>balance - amount\<close> whenever that
  number is a binary64 value.
\<close>

theorem checking_withdraw:
  "dgt amount (Fin 0) \<Longrightarrow>
     (dgt amount (dadd (balance a) OVERDRAFT_LIMIT) \<longrightarrow>
        withdraw (Checking a) amount = (Inr False, Checking a))
   \<and> (\<not> dgt amount (dadd (balance a) OVERDRAFT_LIMIT) \<longrightarrow>
        withdraw (Checking a) amount =
          (Inr True, Checking (a\<lparr>balance := dsub (balance a) amount\<rparr>)))
   \<and> (\<forall>b x. balance a = Fin b \<and> amount = Fin x \<and> exact_sum (Fin b) OVERDRAFT_LIMIT \<longrightarrow>
        (fst (withdraw (Checking a) amount) = Inr True \<longleftrightarrow> x \<le> b + 100)
        \<and> (x \<le> b + 100 \<longrightarrow>
             \<not> dlt (getBalance (snd (withdraw (Checking a) amount))) (Fin (- 100)))
        \<and> (x \<le> b + 100 \<and> rnd (b - x) = Fin (b - x) \<longrightarrow>
             withdraw (Checking a) amount = (Inr True, Checking (a\<lparr>balance := Fin (b - x)\<rparr>))))"
proof -
  assume pos: "dgt amount (Fin 0)"
  then have nle: "\<not> dle amount (Fin 0)" by (rule dgt_zero_not_dle)
  have w: "withdraw (Checking a) amount =
      (if dgt amount (dadd (balance a) OVERDRAFT_LIMIT) then (Inr False, Checking a)
       else (Inr True, Checking (a\<lparr>balance := dsub (balance a) amount\<rparr>)))"
    using nle by (simp add: CheckingAccount_withdraw_def)
  have ex: "(fst (withdraw (Checking a) amount) = Inr True \<longleftrightarrow> x \<le> b + 100)
        \<and> (x \<le> b + 100 \<longrightarrow>
             \<not> dlt (getBalance (snd (withdraw (Checking a) amount))) (Fin (- 100)))
        \<and> (x \<le> b + 100 \<and> rnd (b - x) = Fin (b - x) \<longrightarrow>
             withdraw (Checking a) amount = (Inr True, Checking (a\<lparr>balance := Fin (b - x)\<rparr>)))"
    if h: "balance a = Fin b" "amount = Fin x" "exact_sum (Fin b) OVERDRAFT_LIMIT" for b x
  proof -
    have lim: "dadd (balance a) OVERDRAFT_LIMIT = Fin (b + 100)"
      using h(1,3) by (simp add: OVERDRAFT_LIMIT_def)
    have g: "dgt amount (dadd (balance a) OVERDRAFT_LIMIT) \<longleftrightarrow> b + 100 < x"
      by (simp add: lim h(2) dgt_def)
    have x: "0 < x" using pos h(2) by (simp add: dgt_def)
    show ?thesis
    proof (cases "x \<le> b + 100")
      case True
      then have "- 100 \<le> b - x" by simp
      then have "\<not> dlt (rnd (b - x)) (Fin (- 100))" by (rule rnd_ge_minus_100)
      then show ?thesis unfolding w using True g
        by (simp add: getBalance_def h(1,2) dsub_Fin)
    next
      case False
      show ?thesis unfolding w using False g
        by (simp add: getBalance_def h(1))
    qed
  qed
  show ?thesis using w ex by simp
qed


text \<open>
  The Checking account of \<^verbatim>\<open>main\<close> (balance 500): withdrawing 550 succeeds and leaves
  -50; withdrawing 601 is refused.
\<close>

theorem checking_withdraw_witness:
  "dgt (Fin 550) (Fin 0)
   \<and> withdraw (Checking john) (Fin 550) = (Inr True, Checking (john\<lparr>balance := Fin (- 50)\<rparr>))
   \<and> \<not> dlt (getBalance (snd (withdraw (Checking john) (Fin 550)))) (Fin (- 100))
   \<and> withdraw (Checking john) (Fin 601) = (Inr False, Checking john)"
proof -
  have p1: "dgt (Fin 550) (Fin 0)" and p2: "dgt (Fin 601) (Fin 0)" by (simp_all add: dgt_def)
  have b: "balance john = Fin 500" by (simp add: john_def)
  have e: "exact_sum (Fin 500) OVERDRAFT_LIMIT"
    using rnd_int[of 600] by (simp add: OVERDRAFT_LIMIT_def)
  have l: "dadd (balance john) OVERDRAFT_LIMIT = Fin 600"
    using rnd_int[of 600] by (simp add: OVERDRAFT_LIMIT_def john_def)
  have r: "rnd (500 - 550) = Fin (500 - 550)" using rnd_int[of "- 50"] by simp
  have "withdraw (Checking john) (Fin 550) = (Inr True, Checking (john\<lparr>balance := Fin (500 - 550)\<rparr>))"
    and "\<not> dlt (getBalance (snd (withdraw (Checking john) (Fin 550)))) (Fin (- 100))"
    using checking_withdraw[OF p1, of john] b e r
    by (simp_all add: getBalance_def del: withdraw.simps)
  moreover have "withdraw (Checking john) (Fin 601) = (Inr False, Checking john)"
    using checking_withdraw[OF p2, of john] by (simp add: l dgt_def del: withdraw.simps)
  ultimately show ?thesis using p1 by simp
qed

text \<open>
  Where the arithmetic rounds, the claim as stated fails. With the balance \<open>2^59\<close> the sum
  \<open>2^59 + 100\<close> rounds up to \<open>2^59 + 128\<close>: withdrawing \<open>2^59 + 128\<close>, more than
  \<open>balance + 100\<close>, succeeds and leaves \<open>-128\<close>, below \<open>-100\<close>. With the balance
  \<open>2^54\<close>, withdrawing 1 succeeds and leaves the balance as it was.
\<close>

theorem checking_withdraw_counterexample:
  "rnd (2 ^ 59) = Fin (2 ^ 59) \<and> rnd (2 ^ 59 + 128) = Fin (2 ^ 59 + 128)
   \<and> dgt (Fin (2 ^ 59 + 128)) (Fin 0)
   \<and> \<not> (2 ^ 59 + 128 \<le> 2 ^ 59 + (100 :: rat))
   \<and> withdraw (Checking \<lparr>accountNumber = ''CH001'', accountHolderName = ''John Doe'',
          balance = Fin (2 ^ 59)\<rparr>) (Fin (2 ^ 59 + 128)) =
        (Inr True, Checking \<lparr>accountNumber = ''CH001'', accountHolderName = ''John Doe'',
          balance = Fin (- 128)\<rparr>)
   \<and> dlt (Fin (- 128)) (Fin (- 100))
   \<and> rnd (2 ^ 54) = Fin (2 ^ 54) \<and> rnd 1 = Fin 1 \<and> dgt (Fin 1) (Fin 0)
   \<and> withdraw (Checking \<lparr>accountNumber = ''CH001'', accountHolderName = ''John Doe'',
          balance = Fin (2 ^ 54)\<rparr>) (Fin 1) =
        (Inr True, Checking \<lparr>accountNumber = ''CH001'', accountHolderName = ''John Doe'',
          balance = Fin (2 ^ 54)\<rparr>)"
proof -
  have "dadd (Fin (2 ^ 59)) OVERDRAFT_LIMIT = Fin (2 ^ 59 + 128)"
    using rnd_2p59_100 by (simp add: OVERDRAFT_LIMIT_def)
  moreover have "dsub (Fin (2 ^ 59)) (Fin (2 ^ 59 + 128)) = Fin (- 128)"
    using rnd_int[of "- 128"] by (simp add: dsub_def)
  moreover have "dadd (Fin (2 ^ 54)) OVERDRAFT_LIMIT = Fin (2 ^ 54 + 100)"
    using rnd_dyadic[of "2 ^ 52 + 25" 2] by (simp add: OVERDRAFT_LIMIT_def)
  moreover have "dsub (Fin (2 ^ 54)) (Fin 1) = Fin (2 ^ 54)"
    using rnd_2p54_minus_1 by (simp add: dsub_def)
  moreover have "rnd 1 = Fin 1" using rnd_int[of 1] by simp
  ultimately show ?thesis
    using rnd_2p59 rnd_2p59_128 rnd_2p54
    by (simp add: CheckingAccount_withdraw_def dgt_def)
qed

text \<open>
  Claim C2 (base withdrawal, which a Savings account inherits), as the code has it in double
  arithmetic. For every amount greater than zero, \<^verbatim>\<open>withdraw\<close> returns \<open>false\<close> and
  leaves the object unchanged when the amount is greater than the balance, and otherwise
  returns \<open>true\<close> and sets the balance to the binary64 difference \<open>balance - amount\<close>.
  The new balance is exactly \<open>balance - amount\<close> whenever that number is a binary64 value,
  and withdrawing exactly a finite balance leaves 0.
\<close>

theorem base_withdraw:
  "dgt amount (Fin 0) \<Longrightarrow>
     (dgt amount (balance a) \<longrightarrow> withdraw (Savings a) amount = (Inr False, Savings a))
   \<and> (\<not> dgt amount (balance a) \<longrightarrow>
        withdraw (Savings a) amount =
          (Inr True, Savings (a\<lparr>balance := dsub (balance a) amount\<rparr>)))
   \<and> (\<forall>b x. balance a = Fin b \<and> amount = Fin x \<and> x \<le> b \<and> rnd (b - x) = Fin (b - x) \<longrightarrow>
        withdraw (Savings a) amount = (Inr True, Savings (a\<lparr>balance := Fin (b - x)\<rparr>)))
   \<and> (\<forall>b. balance a = Fin b \<and> amount = Fin b \<longrightarrow>
        withdraw (Savings a) amount = (Inr True, Savings (a\<lparr>balance := Fin 0\<rparr>)))"
proof -
  assume "dgt amount (Fin 0)"
  then have "\<not> dle amount (Fin 0)" by (rule dgt_zero_not_dle)
  then have w: "withdraw (Savings a) amount =
      (if dgt amount (balance a) then (Inr False, Savings a)
       else (Inr True, Savings (a\<lparr>balance := dsub (balance a) amount\<rparr>)))"
    by (simp add: BankAccount_withdraw_def)
  show ?thesis unfolding w by (auto simp: dgt_def dsub_Fin rnd_0)
qed

text \<open>
  The Savings account of \<^verbatim>\<open>main\<close> (balance 1000): withdrawing 1001 is refused,
  withdrawing 300 leaves 700, withdrawing 1000 leaves 0.
\<close>

theorem base_withdraw_witness:
  "dgt (Fin 300) (Fin 0) \<and> dgt (Fin 1000) (Fin 0) \<and> dgt (Fin 1001) (Fin 0)
   \<and> withdraw (Savings jane) (Fin 1001) = (Inr False, Savings jane)
   \<and> withdraw (Savings jane) (Fin 300) = (Inr True, Savings (jane\<lparr>balance := Fin 700\<rparr>))
   \<and> withdraw (Savings jane) (Fin 1000) = (Inr True, Savings (jane\<lparr>balance := Fin 0\<rparr>))"
proof -
  have p: "dgt (Fin 300) (Fin 0)" "dgt (Fin 1000) (Fin 0)" "dgt (Fin 1001) (Fin 0)"
    by (simp_all add: dgt_def)
  have b: "balance jane = Fin 1000" by (simp add: jane_def)
  have r: "rnd (1000 - 300) = Fin (1000 - 300)" using rnd_int[of 700] by simp
  have "withdraw (Savings jane) (Fin 1001) = (Inr False, Savings jane)"
    using base_withdraw[OF p(3), of jane] by (simp add: b dgt_def del: withdraw.simps)
  moreover have "withdraw (Savings jane) (Fin 300) = (Inr True, Savings (jane\<lparr>balance := Fin (1000 - 300)\<rparr>))"
    using base_withdraw[OF p(1), of jane] b r by (simp del: withdraw.simps)
  moreover have "withdraw (Savings jane) (Fin 1000) = (Inr True, Savings (jane\<lparr>balance := Fin 0\<rparr>))"
    using base_withdraw[OF p(2), of jane] b by (simp del: withdraw.simps)
  ultimately show ?thesis using p by simp
qed

text \<open>
  With the balance \<open>2^54\<close>, withdrawing 1 returns \<open>true\<close> and leaves the balance as it
  was: \<open>2^54 - 1\<close> is no binary64 value and rounds to \<open>2^54\<close>.
\<close>

theorem base_withdraw_counterexample:
  "rnd (2 ^ 54) = Fin (2 ^ 54) \<and> rnd 1 = Fin 1
   \<and> dgt (Fin 1) (Fin 0) \<and> \<not> dgt (Fin 1) (Fin (2 ^ 54))
   \<and> withdraw (Savings \<lparr>accountNumber = ''SV001'', accountHolderName = ''Jane Smith'',
          balance = Fin (2 ^ 54)\<rparr>) (Fin 1) =
        (Inr True, Savings \<lparr>accountNumber = ''SV001'', accountHolderName = ''Jane Smith'',
          balance = Fin (2 ^ 54)\<rparr>)
   \<and> Fin (2 ^ 54) \<noteq> Fin (2 ^ 54 - 1)"
proof -
  have "dsub (Fin (2 ^ 54)) (Fin 1) = Fin (2 ^ 54)"
    using rnd_2p54_minus_1 by (simp add: dsub_def)
  moreover have "rnd 1 = Fin 1" using rnd_int[of 1] by simp
  ultimately show ?thesis
    using rnd_2p54 by (simp add: BankAccount_withdraw_def dgt_def)
qed

section \<open>Monthly updates\<close>

text \<open>
  Claim C3 (monthly fee of a Checking account), as the code has it in double arithmetic.
  When the balance is at least \<open>MONTHLY_FEE = 10\<close> the balance becomes the binary64
  difference \<open>balance - MONTHLY_FEE\<close>; when the balance is below the fee the object is
  unchanged. The decrease is exactly the fee whenever \<open>balance - 10\<close> is a binary64 value.
\<close>

theorem checking_monthly_fee:
  "(dge (balance a) MONTHLY_FEE \<longrightarrow>
      applyMonthlyFee (Checking a) = Checking (a\<lparr>balance := dsub (balance a) MONTHLY_FEE\<rparr>))
   \<and> (dlt (balance a) MONTHLY_FEE \<longrightarrow> applyMonthlyFee (Checking a) = Checking a)
   \<and> (\<forall>b. balance a = Fin b \<and> 10 \<le> b \<and> rnd (b - 10) = Fin (b - 10) \<longrightarrow>
        applyMonthlyFee (Checking a) = Checking (a\<lparr>balance := Fin (b - 10)\<rparr>))"
  using dlt_not_dge[of "balance a" MONTHLY_FEE]
  by (auto simp: CheckingAccount_applyMonthlyFee_def MONTHLY_FEE_def dge_def dsub_Fin)

text \<open>From 650 the fee leaves 640; a balance of 5 is left alone.\<close>

theorem checking_monthly_fee_witness:
  "dge (Fin 650) MONTHLY_FEE \<and> dlt (Fin 5) MONTHLY_FEE
   \<and> applyMonthlyFee (Checking (john\<lparr>balance := Fin 650\<rparr>)) = Checking (john\<lparr>balance := Fin 640\<rparr>)
   \<and> applyMonthlyFee (Checking (john\<lparr>balance := Fin 5\<rparr>)) = Checking (john\<lparr>balance := Fin 5\<rparr>)"
proof -
  have r: "rnd (650 - 10) = Fin (650 - 10)" using rnd_int[of 640] by simp
  have "applyMonthlyFee (Checking (john\<lparr>balance := Fin 650\<rparr>)) =
      Checking (john\<lparr>balance := Fin (650 - 10)\<rparr>)"
    using checking_monthly_fee[of "john\<lparr>balance := Fin 650\<rparr>"] r
    by (simp del: applyMonthlyFee.simps)
  moreover have "applyMonthlyFee (Checking (john\<lparr>balance := Fin 5\<rparr>)) =
      Checking (john\<lparr>balance := Fin 5\<rparr>)"
    using checking_monthly_fee[of "john\<lparr>balance := Fin 5\<rparr>"]
    by (simp add: MONTHLY_FEE_def del: applyMonthlyFee.simps)
  ultimately show ?thesis by (simp add: MONTHLY_FEE_def dge_def)
qed

text \<open>
  With the balance \<open>2^55\<close> the difference \<open>2^55 - 10\<close> rounds to \<open>2^55 - 8\<close>: the
  balance decreases by 8, neither by the fee nor by nothing.
\<close>

theorem checking_monthly_fee_counterexample:
  "rnd (2 ^ 55) = Fin (2 ^ 55) \<and> dge (Fin (2 ^ 55)) MONTHLY_FEE
   \<and> applyMonthlyFee (Checking \<lparr>accountNumber = ''CH001'', accountHolderName = ''John Doe'',
          balance = Fin (2 ^ 55)\<rparr>) =
        Checking \<lparr>accountNumber = ''CH001'', accountHolderName = ''John Doe'',
          balance = Fin (2 ^ 55 - 8)\<rparr>
   \<and> Fin (2 ^ 55 - 8) \<noteq> Fin (2 ^ 55 - 10) \<and> Fin (2 ^ 55 - 8) \<noteq> Fin (2 ^ 55)"
proof -
  have "dsub (Fin (2 ^ 55)) MONTHLY_FEE = Fin (2 ^ 55 - 8)"
    using rnd_2p55_minus_10 by (simp add: dsub_def MONTHLY_FEE_def)
  then show ?thesis
    using rnd_2p55 by (simp add: CheckingAccount_applyMonthlyFee_def) (simp add: dge_def MONTHLY_FEE_def)
qed

text \<open>
  Claim C4 (monthly interest of a Savings account), as the code has it in double arithmetic.
  Whatever the balance, \<^verbatim>\<open>applyMonthlyFee\<close> sets it to the binary64 sum of the balance
  and the binary64 product \<open>balance * INTEREST_RATE\<close>, where \<open>INTEREST_RATE\<close> is the
  binary64 value nearest to 0.05. The new balance is exactly \<open>balance + balance * 0.05\<close>
  whenever the product rounds to \<open>balance * 0.05\<close> and that sum is a binary64 value.
\<close>

theorem savings_monthly_interest:
  "applyMonthlyFee (Savings a) =
     Savings (a\<lparr>balance := dadd (balance a) (dmul (balance a) INTEREST_RATE)\<rparr>)
   \<and> INTEREST_RATE = Fin (3602879701896397 / 72057594037927936)
   \<and> (\<forall>b. balance a = Fin b \<and> dmul (Fin b) INTEREST_RATE = Fin (b * (5 / 100))
          \<and> rnd (b + b * (5 / 100)) = Fin (b + b * (5 / 100)) \<longrightarrow>
        applyMonthlyFee (Savings a) = Savings (a\<lparr>balance := Fin (b + b * (5 / 100))\<rparr>))"
  using INTEREST_RATE_value by (simp add: SavingsAccount_applyMonthlyFee_def)

text \<open>The Savings account of \<^verbatim>\<open>main\<close>: 1000 becomes 1050.\<close>

theorem savings_monthly_interest_witness:
  "dmul (Fin 1000) INTEREST_RATE = Fin (1000 * (5 / 100))
   \<and> rnd (1000 + 1000 * (5 / 100)) = Fin (1000 + 1000 * (5 / 100))
   \<and> applyMonthlyFee (Savings jane) = Savings (jane\<lparr>balance := Fin 1050\<rparr>)"
proof -
  have b: "balance jane = Fin 1000" by (simp add: jane_def)
  have m: "dmul (Fin 1000) INTEREST_RATE = Fin (1000 * (5 / 100))"
    using interest_1000 by simp
  have r: "rnd (1000 + 1000 * (5 / 100)) = Fin (1000 + 1000 * (5 / 100))"
    using rnd_int[of 1050] by simp
  have "applyMonthlyFee (Savings jane) = Savings (jane\<lparr>balance := Fin (1000 + 1000 * (5 / 100))\<rparr>)"
    using savings_monthly_interest[of jane] b m r by (simp del: applyMonthlyFee.simps)
  then show ?thesis using m r by simp
qed

text \<open>
  The balance 101 becomes \<open>7462605320041267 / 2^46\<close>, the binary64 value next to 106.05,
  and the balance \<open>2^53\<close> becomes 9457559217478042, while \<open>2^53 * 1.05\<close> is
  9457559217478041.6.
\<close>

theorem savings_monthly_interest_counterexample:
  "rnd 101 = Fin 101
   \<and> applyMonthlyFee (Savings \<lparr>accountNumber = ''SV001'', accountHolderName = ''Jane Smith'',
          balance = Fin 101\<rparr>) =
        Savings \<lparr>accountNumber = ''SV001'', accountHolderName = ''Jane Smith'',
          balance = Fin (7462605320041267 / 70368744177664)\<rparr>
   \<and> Fin (7462605320041267 / 70368744177664) \<noteq> Fin (101 + 101 * (5 / 100))
   \<and> rnd (2 ^ 53) = Fin (2 ^ 53)
   \<and> applyMonthlyFee (Savings \<lparr>accountNumber = ''SV001'', accountHolderName = ''Jane Smith'',
          balance = Fin (2 ^ 53)\<rparr>) =
        Savings \<lparr>accountNumber = ''SV001'', accountHolderName = ''Jane Smith'',
          balance = Fin 9457559217478042\<rparr>
   \<and> Fin 9457559217478042 \<noteq> Fin (2 ^ 53 + 2 ^ 53 * (5 / 100))"
proof -
  have "dadd (Fin 101) (dmul (Fin 101) INTEREST_RATE) = Fin (7462605320041267 / 70368744177664)"
    by (simp only: interest_101 balance_101)
  moreover have "dadd (Fin (2 ^ 53)) (dmul (Fin (2 ^ 53)) INTEREST_RATE) = Fin 9457559217478042"
    by (simp only: interest_2p53 balance_2p53)
  ultimately show ?thesis
    using rnd_int[of 101] rnd_dyadic[of 1 53]
    by (simp add: SavingsAccount_applyMonthlyFee_def del: dadd.simps dmul.simps)
qed

section \<open>Invalid amounts and deposits\<close>

text \<open>
  Claim C5 (invalid amounts), as the code has it in double arithmetic. For an account of
  either class and an amount less than or equal to zero, \<^verbatim>\<open>deposit\<close> and
  \<^verbatim>\<open>withdraw\<close> throw the exception for a non-positive amount and leave the object
  (number, holder name and balance) as it was. For an amount greater than zero
  \<^verbatim>\<open>deposit\<close> does not throw, keeps the number and the holder name, and sets the
  balance to the binary64 sum \<open>balance + amount\<close>, which is exactly \<open>balance + amount\<close>
  whenever that number is a binary64 value.
\<close>

theorem invalid_amount_atomicity:
  "(dle amount (Fin 0) \<longrightarrow>
      deposit acc amount = (Inl (BankingException ''Deposit amount must be positive''), acc)
      \<and> withdraw acc amount = (Inl (BankingException ''Withdrawal amount must be positive''), acc))
   \<and> (dgt amount (Fin 0) \<longrightarrow>
      fst (deposit acc amount) = Inr ()
      \<and> getBalance (snd (deposit acc amount)) = dadd (getBalance acc) amount
      \<and> getAccountNumber (snd (deposit acc amount)) = getAccountNumber acc
      \<and> getAccountHolderName (snd (deposit acc amount)) = getAccountHolderName acc
      \<and> (\<forall>b x. getBalance acc = Fin b \<and> amount = Fin x \<and> rnd (b + x) = Fin (b + x) \<longrightarrow>
            getBalance (snd (deposit acc amount)) = Fin (b + x)))"
  using dgt_zero_not_dle[of amount]
  by (cases acc)
    (auto simp: BankAccount_deposit_def BankAccount_withdraw_def CheckingAccount_withdraw_def
      getBalance_def getAccountNumber_def getAccountHolderName_def)

text \<open>
  Depositing 0 and withdrawing -5 throw and change nothing; depositing 200 into the Checking
  account of \<^verbatim>\<open>main\<close> gives 700.
\<close>

theorem invalid_amount_atomicity_witness:
  "dle (Fin 0) (Fin 0) \<and> dle (Fin (- 5)) (Fin 0) \<and> dgt (Fin 200) (Fin 0)
   \<and> deposit (Checking john) (Fin 0) =
        (Inl (BankingException ''Deposit amount must be positive''), Checking john)
   \<and> withdraw (Savings jane) (Fin (- 5)) =
        (Inl (BankingException ''Withdrawal amount must be positive''), Savings jane)
   \<and> fst (deposit (Checking john) (Fin 200)) = Inr ()
   \<and> getBalance (snd (deposit (Checking john) (Fin 200))) = Fin 700"
proof -
  have p: "dle (Fin 0) (Fin 0)" "dle (Fin (- 5)) (Fin 0)" "dgt (Fin 200) (Fin 0)"
    by (simp_all add: dgt_def)
  have b: "getBalance (Checking john) = Fin 500" by (simp add: getBalance_def john_def)
  have r: "rnd (500 + 200) = Fin (500 + 200)" using rnd_int[of 700] by simp
  have "deposit (Checking john) (Fin 0) =
        (Inl (BankingException ''Deposit amount must be positive''), Checking john)"
    using invalid_amount_atomicity[of "Fin 0" "Checking john"] p
    by (simp del: deposit.simps withdraw.simps)
  moreover have "withdraw (Savings jane) (Fin (- 5)) =
        (Inl (BankingException ''Withdrawal amount must be positive''), Savings jane)"
    using invalid_amount_atomicity[of "Fin (- 5)" "Savings jane"] p
    by (simp del: deposit.simps withdraw.simps)
  moreover have "fst (deposit (Checking john) (Fin 200)) = Inr ()"
    and "getBalance (snd (deposit (Checking john) (Fin 200))) = Fin (500 + 200)"
    using invalid_amount_atomicity[of "Fin 200" "Checking john"] p b r
    by (simp_all del: deposit.simps withdraw.simps)
  ultimately show ?thesis using p by simp
qed

text \<open>
  Depositing 1 into a balance of \<open>2^54\<close> succeeds and leaves the balance as it was:
  \<open>2^54 + 1\<close> rounds to \<open>2^54\<close>.
\<close>

theorem invalid_amount_atomicity_counterexample:
  "rnd (2 ^ 54) = Fin (2 ^ 54) \<and> rnd 1 = Fin 1 \<and> dgt (Fin 1) (Fin 0)
   \<and> deposit (Checking \<lparr>accountNumber = ''CH001'', accountHolderName = ''John Doe'',
          balance = Fin (2 ^ 54)\<rparr>) (Fin 1) =
        (Inr (), Checking \<lparr>accountNumber = ''CH001'', accountHolderName = ''John Doe'',
          balance = Fin (2 ^ 54)\<rparr>)
   \<and> Fin (2 ^ 54) \<noteq> Fin (2 ^ 54 + 1)"
proof -
  have "rnd 1 = Fin 1" using rnd_int[of 1] by simp
  then show ?thesis
    using rnd_2p54 rnd_2p54_plus_1 by (simp add: BankAccount_deposit_def dgt_def)
qed

section \<open>Lookup and frame conditions of the bank\<close>

lemma deposit_fields:
  "getAccountNumber (snd (deposit a amount)) = getAccountNumber a"
  "getAccountHolderName (snd (deposit a amount)) = getAccountHolderName a"
  by (cases a; simp add: BankAccount_deposit_def getAccountNumber_def getAccountHolderName_def)+

lemma withdraw_fields:
  "getAccountNumber (snd (withdraw a amount)) = getAccountNumber a"
  "getAccountHolderName (snd (withdraw a amount)) = getAccountHolderName a"
  by (cases a; simp add: BankAccount_withdraw_def CheckingAccount_withdraw_def
        getAccountNumber_def getAccountHolderName_def)+

lemma applyMonthlyFee_fields:
  "getAccountNumber (applyMonthlyFee a) = getAccountNumber a"
  "getAccountHolderName (applyMonthlyFee a) = getAccountHolderName a"
  by (cases a; simp add: CheckingAccount_applyMonthlyFee_def SavingsAccount_applyMonthlyFee_def
        getAccountNumber_def getAccountHolderName_def)+

lemma findAccount_loop_None:
  "findAccount_loop s ps n = None \<longleftrightarrow> (\<forall>p\<in>set ps. getAccountNumber (s p) \<noteq> n)"
  by (induction ps) auto

lemma findAccount_loop_Some:
  "findAccount_loop s ps n = Some p \<Longrightarrow>
     \<exists>i<length ps. ps ! i = p \<and> getAccountNumber (s p) = n
       \<and> (\<forall>j<i. getAccountNumber (s (ps ! j)) \<noteq> n)"
proof (induction ps)
  case Nil
  then show ?case by simp
next
  case (Cons q ps)
  show ?case
  proof (cases "getAccountNumber (s q) = n")
    case True
    with Cons.prems have "q = p" by simp
    with True show ?thesis by (intro exI[of _ 0]) simp
  next
    case False
    with Cons.prems have "findAccount_loop s ps n = Some p" by simp
    from Cons.IH[OF this] obtain i where i: "i < length ps" "ps ! i = p"
      "getAccountNumber (s p) = n" "\<forall>j<i. getAccountNumber (s (ps ! j)) \<noteq> n" by blast
    have "\<forall>j<Suc i. getAccountNumber (s ((q # ps) ! j)) \<noteq> n"
      using False i(4) by (auto simp: less_Suc_eq_0_disj)
    with i(1-3) show ?thesis by (intro exI[of _ "Suc i"]) simp
  qed
qed

lemma findAccount_loop_numbers:
  "(\<And>p. getAccountNumber (s' p) = getAccountNumber (s p)) \<Longrightarrow>
     findAccount_loop s' ps n = findAccount_loop s ps n"
  by (induction ps) auto

lemma processMonthlyUpdates_loop_foldl:
  "processMonthlyUpdates_loop s ps = foldl (\<lambda>s p. s(p := applyMonthlyFee (s p))) s ps"
  by (induction ps arbitrary: s) auto

lemma processMonthlyUpdates_loop_outside:
  "p \<notin> set ps \<Longrightarrow> processMonthlyUpdates_loop s ps p = s p"
  by (induction ps arbitrary: s) auto

lemma processMonthlyUpdates_loop_inside:
  "distinct ps \<Longrightarrow> p \<in> set ps \<Longrightarrow> processMonthlyUpdates_loop s ps p = applyMonthlyFee (s p)"
  by (induction ps arbitrary: s) (auto simp: processMonthlyUpdates_loop_outside)

lemma processMonthlyUpdates_loop_fields:
  "getAccountNumber (processMonthlyUpdates_loop s ps p) = getAccountNumber (s p)"
  "getAccountHolderName (processMonthlyUpdates_loop s ps p) = getAccountHolderName (s p)"
  by (induction ps arbitrary: s; simp add: applyMonthlyFee_fields)+

text \<open>
  Claim C8 (lookup). \<^verbatim>\<open>findAccount\<close> returns \<^verbatim>\<open>nullptr\<close> exactly when no registered
  account has the number. A pointer it returns is the address stored at the first position
  of the vector whose account has the number. The pointer aliases the stored object: after
  \<^verbatim>\<open>deposit\<close> or \<^verbatim>\<open>withdraw\<close> through it, \<^verbatim>\<open>findAccount\<close> returns the same
  pointer, the object there is the object the call left, and \<^verbatim>\<open>displayAllAccounts\<close>
  shows that object at the pointer's positions and every other account as before.
\<close>

theorem find_account:
  "(findAccount s b n = None \<longleftrightarrow> (\<forall>p\<in>set (accounts b). getAccountNumber (s p) \<noteq> n))
   \<and> (\<forall>p. findAccount s b n = Some p \<longrightarrow>
        (\<exists>i<length (accounts b). accounts b ! i = p \<and> getAccountNumber (s p) = n
           \<and> (\<forall>j<i. getAccountNumber (s (accounts b ! j)) \<noteq> n))
        \<and> (\<forall>amount.
              findAccount (snd (call_deposit s p amount)) b n = Some p
              \<and> snd (call_deposit s p amount) p = snd (deposit (s p) amount)
              \<and> displayAllAccounts (snd (call_deposit s p amount)) b =
                  map (\<lambda>q. displayAccountInfo (if q = p then snd (deposit (s p) amount) else s q))
                    (accounts b)
              \<and> findAccount (snd (call_withdraw s p amount)) b n = Some p
              \<and> snd (call_withdraw s p amount) p = snd (withdraw (s p) amount)
              \<and> displayAllAccounts (snd (call_withdraw s p amount)) b =
                  map (\<lambda>q. displayAccountInfo (if q = p then snd (withdraw (s p) amount) else s q))
                    (accounts b)))"
proof -
  have d: "findAccount (snd (call_deposit s p amount)) b n = findAccount s b n" for p amount
    unfolding findAccount_def call_deposit_def
    by (rule findAccount_loop_numbers) (simp add: deposit_fields)
  have w: "findAccount (snd (call_withdraw s p amount)) b n = findAccount s b n" for p amount
    unfolding findAccount_def call_withdraw_def
    by (rule findAccount_loop_numbers) (simp add: withdraw_fields)
  have m: "displayAllAccounts (s(p := a)) b =
      map (\<lambda>q. displayAccountInfo (if q = p then a else s q)) (accounts b)" for p a
    by (simp add: displayAllAccounts_def)
  show ?thesis
    using findAccount_loop_None[of s "accounts b" n] findAccount_loop_Some[of s "accounts b" n]
    by (simp add: d w) (simp add: findAccount_def call_deposit_def call_withdraw_def m)
qed

text \<open>
  Claim C9 (frame conditions of the bank). \<^verbatim>\<open>addAccount\<close> appends the pointer to the
  vector and leaves the accounts already there in place. \<^verbatim>\<open>processMonthlyUpdates\<close>
  leaves the vector as it is and applies \<^verbatim>\<open>applyMonthlyFee\<close> from the front to the
  back: with owning, hence distinct, pointers every registered object gets its own class's
  update once, and no other object changes. No operation (\<^verbatim>\<open>deposit\<close>,
  \<^verbatim>\<open>withdraw\<close>, \<^verbatim>\<open>applyMonthlyFee\<close>, \<^verbatim>\<open>processMonthlyUpdates\<close>) changes the
  number or the holder name of an account.
\<close>

theorem ledger_frame:
  "accounts (addAccount b p) = accounts b @ [p]
   \<and> displayAllAccounts s (addAccount b p) = displayAllAccounts s b @ [displayAccountInfo (s p)]
   \<and> snd (processMonthlyUpdates s b) = b
   \<and> fst (processMonthlyUpdates s b) =
       foldl (\<lambda>s p. s(p := applyMonthlyFee (s p))) s (accounts b)
   \<and> (distinct (accounts b) \<longrightarrow>
        (\<forall>q\<in>set (accounts b). fst (processMonthlyUpdates s b) q = applyMonthlyFee (s q)))
   \<and> (\<forall>q. q \<notin> set (accounts b) \<longrightarrow> fst (processMonthlyUpdates s b) q = s q)
   \<and> (\<forall>q. getAccountNumber (fst (processMonthlyUpdates s b) q) = getAccountNumber (s q)
          \<and> getAccountHolderName (fst (processMonthlyUpdates s b) q) = getAccountHolderName (s q))
   \<and> getAccountNumber (snd (deposit a amount)) = getAccountNumber a
   \<and> getAccountHolderName (snd (deposit a amount)) = getAccountHolderName a
   \<and> getAccountNumber (snd (withdraw a amount)) = getAccountNumber a
   \<and> getAccountHolderName (snd (withdraw a amount)) = getAccountHolderName a
   \<and> getAccountNumber (applyMonthlyFee a) = getAccountNumber a
   \<and> getAccountHolderName (applyMonthlyFee a) = getAccountHolderName a"
  by (simp add: addAccount_def displayAllAccounts_def processMonthlyUpdates_def
      processMonthlyUpdates_loop_foldl[symmetric] processMonthlyUpdates_loop_inside
      processMonthlyUpdates_loop_outside processMonthlyUpdates_loop_fields
      deposit_fields withdraw_fields applyMonthlyFee_fields)

lemma main_bank_accounts: "accounts main_bank = [0, 1]"
  by (simp add: main_bank_def addAccount_def)

lemma john_fee: "applyMonthlyFee (Checking john) = Checking (john\<lparr>balance := Fin 490\<rparr>)"
  using rnd_int[of 490]
  by (simp add: CheckingAccount_applyMonthlyFee_def john_def MONTHLY_FEE_def dge_def dsub_def)

lemma jane_interest: "applyMonthlyFee (Savings jane) = Savings (jane\<lparr>balance := Fin 1050\<rparr>)"
proof -
  have "dadd (Fin 1000) (dmul (Fin 1000) INTEREST_RATE) = Fin 1050"
    unfolding interest_1000 using rnd_int[of 1050] by simp
  then show ?thesis
    by (simp add: SavingsAccount_applyMonthlyFee_def jane_def del: dadd.simps dmul.simps)
qed

lemma john_deposit_200: "deposit (Checking john) (Fin 200) = (Inr (), Checking (john\<lparr>balance := Fin 700\<rparr>))"
  using rnd_int[of 700] by (simp add: BankAccount_deposit_def john_def)

text \<open>
  In the state of \<^verbatim>\<open>main\<close>: both numbers are found, a third is not, and the deposit of
  200 through the pointer for \<^verbatim>\<open>CH001\<close> shows in the next lookup and listing.
\<close>

theorem find_account_witness:
  "findAccount main_store main_bank ''CH001'' = Some 0
   \<and> findAccount main_store main_bank ''SV001'' = Some 1
   \<and> findAccount main_store main_bank ''CH002'' = None
   \<and> findAccount (snd (call_deposit main_store 0 (Fin 200))) main_bank ''CH001'' = Some 0
   \<and> snd (call_deposit main_store 0 (Fin 200)) 0 = Checking (john\<lparr>balance := Fin 700\<rparr>)
   \<and> displayAllAccounts (snd (call_deposit main_store 0 (Fin 200))) main_bank =
        [(''CH001'', ''John Doe'', Fin 700, ''Checking''), (''SV001'', ''Jane Smith'', Fin 1000, ''Savings'')]"
proof -
  have f0: "findAccount main_store main_bank ''CH001'' = Some 0"
    and f1: "findAccount main_store main_bank ''SV001'' = Some 1"
    by (simp_all add: findAccount_def main_bank_accounts main_store_def getAccountNumber_def
        john_def jane_def)
  have n: "\<forall>p\<in>set (accounts main_bank). getAccountNumber (main_store p) \<noteq> ''CH002''"
    by (simp add: main_bank_accounts main_store_def getAccountNumber_def john_def jane_def)
  have s0: "main_store 0 = Checking john" by (simp add: main_store_def)
  have "findAccount main_store main_bank ''CH002'' = None"
    using find_account[of main_store main_bank "''CH002''"] n by blast
  moreover have "findAccount (snd (call_deposit main_store 0 (Fin 200))) main_bank ''CH001'' = Some 0"
    and "snd (call_deposit main_store 0 (Fin 200)) 0 = snd (deposit (main_store 0) (Fin 200))"
    and "displayAllAccounts (snd (call_deposit main_store 0 (Fin 200))) main_bank =
          map (\<lambda>q. displayAccountInfo (if q = 0 then snd (deposit (main_store 0) (Fin 200)) else main_store q))
            (accounts main_bank)"
    using find_account[of main_store main_bank "''CH001''"] f0 by blast+
  ultimately show ?thesis
    using f0 f1 by (simp add: s0 john_deposit_200 main_bank_accounts del: deposit.simps)
      (simp add: main_store_def john_def jane_def)
qed

text \<open>
  In the state of \<^verbatim>\<open>main\<close> the monthly update charges the Checking account its fee,
  pays the Savings account its interest, and touches nothing else.
\<close>

theorem ledger_frame_witness:
  "distinct (accounts main_bank)
   \<and> accounts main_bank = [0, 1]
   \<and> snd (processMonthlyUpdates main_store main_bank) = main_bank
   \<and> fst (processMonthlyUpdates main_store main_bank) 0 = Checking (john\<lparr>balance := Fin 490\<rparr>)
   \<and> fst (processMonthlyUpdates main_store main_bank) 1 = Savings (jane\<lparr>balance := Fin 1050\<rparr>)
   \<and> fst (processMonthlyUpdates main_store main_bank) 2 = main_store 2"
proof -
  have a: "accounts main_bank = [0, 1]" by (rule main_bank_accounts)
  have d: "distinct (accounts main_bank)" by (simp add: a)
  note t = ledger_frame[of main_bank 2 main_store "Checking john" "Fin 1"]
  have "snd (processMonthlyUpdates main_store main_bank) = main_bank" using t by blast
  moreover have "\<forall>q\<in>set (accounts main_bank).
      fst (processMonthlyUpdates main_store main_bank) q = applyMonthlyFee (main_store q)"
    using t d by blast
  moreover have "\<forall>q. q \<notin> set (accounts main_bank) \<longrightarrow>
      fst (processMonthlyUpdates main_store main_bank) q = main_store q"
    using t by blast
  ultimately show ?thesis
    using d by (simp add: a main_store_def john_fee jane_interest del: applyMonthlyFee.simps)
qed

section \<open>The balance along sequences of operations\<close>

lemma rnd_not_NaN: "rnd q \<noteq> NaN"
  by (simp add: rnd_def)

lemma not_dlt_dle: "x \<noteq> NaN \<Longrightarrow> \<not> dlt x (Fin c) \<Longrightarrow> dle (Fin c) x"
  by (cases x) auto

lemma dadd_not_negative:
  "\<not> dle x (Fin 0) \<Longrightarrow> \<not> dlt b (Fin 0) \<Longrightarrow> \<not> dlt (dadd b x) (Fin 0)"
  by (cases b; cases x) (auto simp: rnd_nonneg)

lemma dsub_not_negative:
  "\<not> dle x (Fin 0) \<Longrightarrow> \<not> dgt x b \<Longrightarrow> \<not> dlt b (Fin 0) \<Longrightarrow> \<not> dlt (dsub b x) (Fin 0)"
  by (cases b; cases x) (auto simp: rnd_nonneg dsub_def dgt_def)

lemma rnd_nonneg_cases:
  assumes "0 \<le> q"
  obtains "rnd q = PInf" | v where "rnd q = Fin v" and "0 \<le> v"
proof -
  have "rnd q = PInf \<or> (\<exists>v\<ge>0. rnd q = Fin v)"
    using assms rnd_abs_nonneg[of "\<bar>q\<bar>"] by (simp add: rnd_def)
  then show ?thesis using that by blast
qed

lemma interest_not_negative:
  assumes "\<not> dlt b (Fin 0)"
  shows "\<not> dlt (dadd b (dmul b INTEREST_RATE)) (Fin 0)"
proof (cases b)
  case (Fin q)
  with assms have q: "0 \<le> q" by simp
  then have "0 \<le> q * (3602879701896397 / 72057594037927936)" by simp
  then show ?thesis
  proof (cases rule: rnd_nonneg_cases)
    case 1
    then show ?thesis by (simp add: Fin INTEREST_RATE_value)
  next
    case (2 v)
    then show ?thesis using q by (simp add: Fin INTEREST_RATE_value rnd_nonneg)
  qed
qed (use assms in \<open>simp_all add: INTEREST_RATE_value\<close>)

lemma dadd_not_below_limit:
  "\<not> dle x (Fin 0) \<Longrightarrow> \<not> dlt b (Fin (- 100)) \<Longrightarrow> \<not> dlt (dadd b x) (Fin (- 100))"
  by (cases b; cases x) (auto simp: rnd_ge_minus_100)

lemma dsub_not_below_limit:
  assumes "\<not> dle x (Fin 0)"
    and "case b of Fin q \<Rightarrow> \<not> dlt (Fin (q + 100)) x | _ \<Rightarrow> True"
    and "\<not> dlt b (Fin (- 100))"
  shows "\<not> dlt (dsub b x) (Fin (- 100))"
  using assms
  by (cases b; cases x) (auto simp: rnd_ge_minus_100 dsub_def)

lemma fee_not_below_limit:
  "dge b MONTHLY_FEE \<Longrightarrow> \<not> dlt (dsub b MONTHLY_FEE) (Fin (- 100))"
  by (cases b) (auto simp: rnd_ge_minus_100 dsub_def dge_def MONTHLY_FEE_def)

lemma savings_step:
  assumes "\<not> dlt (balance r) (Fin 0)"
  shows "\<exists>r'. perform (Savings r) x = Savings r' \<and> \<not> dlt (balance r') (Fin 0)"
proof (cases x)
  case (Deposit amount)
  then show ?thesis using assms dadd_not_negative[of amount "balance r"]
    by (simp add: BankAccount_deposit_def)
next
  case (Withdraw amount)
  then show ?thesis using assms dsub_not_negative[of amount "balance r"]
    by (simp add: BankAccount_withdraw_def)
next
  case ApplyMonthlyFee
  then show ?thesis using interest_not_negative[OF assms]
    by (simp add: SavingsAccount_applyMonthlyFee_def)
qed

lemma checking_step:
  assumes "\<not> dlt (balance r) (Fin (- 100))" and "within_limit (Checking r) x"
  shows "\<exists>r'. perform (Checking r) x = Checking r' \<and> \<not> dlt (balance r') (Fin (- 100))"
proof (cases x)
  case (Deposit amount)
  then show ?thesis using assms(1) dadd_not_below_limit[of amount "balance r"]
    by (simp add: BankAccount_deposit_def)
next
  case (Withdraw amount)
  show ?thesis
  proof (cases "fst (withdraw (Checking r) amount) = Inr True")
    case True
    then have g: "\<not> dle amount (Fin 0)"
      by (auto simp: CheckingAccount_withdraw_def split: if_splits)
    from True assms(2) have "case balance r of Fin q \<Rightarrow> \<not> dlt (Fin (q + 100)) amount | _ \<Rightarrow> True"
      by (simp add: Withdraw getBalance_def)
    from dsub_not_below_limit[OF g this assms(1)] show ?thesis
      using assms(1) by (simp add: Withdraw CheckingAccount_withdraw_def)
  next
    case False
    then show ?thesis using assms(1)
      by (auto simp: Withdraw CheckingAccount_withdraw_def split: if_splits)
  qed
next
  case ApplyMonthlyFee
  then show ?thesis using assms(1) fee_not_below_limit[of "balance r"]
    by (simp add: CheckingAccount_applyMonthlyFee_def)
qed

lemma savings_run:
  "\<not> dlt (balance r) (Fin 0) \<Longrightarrow> \<not> dlt (getBalance (perform_all (Savings r) xs)) (Fin 0)"
proof (induction xs arbitrary: r)
  case Nil
  then show ?case by (simp add: getBalance_def)
next
  case (Cons x xs)
  from savings_step[OF Cons.prems, of x] obtain r' where
    "perform (Savings r) x = Savings r'" "\<not> dlt (balance r') (Fin 0)" by blast
  then show ?case using Cons.IH[of r'] by simp
qed

lemma checking_run:
  "\<not> dlt (balance r) (Fin (- 100)) \<Longrightarrow> along within_limit (Checking r) xs \<Longrightarrow>
     \<not> dlt (getBalance (perform_all (Checking r) xs)) (Fin (- 100))"
proof (induction xs arbitrary: r)
  case Nil
  then show ?case by (simp add: getBalance_def)
next
  case (Cons x xs)
  from Cons.prems(2) have e: "within_limit (Checking r) x"
    "along within_limit (perform (Checking r) x) xs"
    by simp_all
  from checking_step[OF Cons.prems(1) e(1)] obtain r' where
    r': "perform (Checking r) x = Checking r'" "\<not> dlt (balance r') (Fin (- 100))" by blast
  then show ?case using Cons.IH[of r'] e(2) by simp
qed

text \<open>A granted withdrawal whose overdraft sum was not rounded up is within the limit.\<close>

lemma not_rounded_up_le:
  assumes "\<not> dlt (rnd s) x" and "\<not> dlt (Fin s) (rnd s)"
  shows "\<not> dlt (Fin s) x"
  using assms rnd_not_NaN[of s] by (cases "rnd s"; cases x) auto

lemma not_rounded_up_within_limit:
  assumes "limit_not_rounded_up a x"
  shows "within_limit a x"
proof (cases x)
  case (Withdraw amount)
  show ?thesis
  proof (cases a)
    case (Checking r)
    show ?thesis
    proof (cases "balance r")
      case (Fin q)
      have "\<not> dlt (Fin (q + 100)) amount"
        if "fst (withdraw (Checking r) amount) = Inr True"
      proof -
        from that have "\<not> dlt (rnd (q + 100)) amount"
          by (auto simp: CheckingAccount_withdraw_def Fin OVERDRAFT_LIMIT_def dgt_def
              split: if_splits)
        moreover from that assms have "\<not> dlt (Fin (q + 100)) (rnd (q + 100))"
          by (simp add: Withdraw Checking getBalance_def Fin OVERDRAFT_LIMIT_def)
        ultimately show ?thesis by (rule not_rounded_up_le)
      qed
      then show ?thesis by (simp add: Withdraw Checking getBalance_def Fin del: withdraw.simps)
    qed (simp_all add: Withdraw Checking getBalance_def)
  next
    case (Savings r)
    show ?thesis
      unfolding Withdraw Savings
      by (cases "balance r"; cases amount)
        (auto simp: BankAccount_withdraw_def getBalance_def dgt_def split: if_splits)
  qed
qed simp_all

lemma along_mono:
  "(\<And>a x. P a x \<Longrightarrow> Q a x) \<Longrightarrow> along P a xs \<Longrightarrow> along Q a xs"
  by (induction xs arbitrary: a) auto

text \<open>With finite amounts no operation turns a balance into NaN.\<close>

lemma dadd_not_NaN: "b \<noteq> NaN \<Longrightarrow> dadd b (Fin y) \<noteq> NaN"
  by (cases b) (simp_all add: rnd_not_NaN)

lemma dadd_Fin_not_NaN: "z \<noteq> NaN \<Longrightarrow> dadd (Fin q) z \<noteq> NaN"
  by (cases z) (simp_all add: rnd_not_NaN)

lemma interest_not_NaN:
  assumes "b \<noteq> NaN"
  shows "dadd b (dmul b INTEREST_RATE) \<noteq> NaN"
proof (cases b)
  case (Fin q)
  show ?thesis
    unfolding Fin INTEREST_RATE_value dmul.simps
    by (rule dadd_Fin_not_NaN) (rule rnd_not_NaN)
qed (use assms in \<open>simp_all add: INTEREST_RATE_value\<close>)

lemma perform_not_NaN:
  assumes "getBalance a \<noteq> NaN" and "finite_amount x"
  shows "getBalance (perform a x) \<noteq> NaN"
proof (cases x)
  case (Deposit amount)
  with assms(2) obtain y where "amount = Fin y" by (cases amount) simp_all
  then show ?thesis using assms(1) dadd_not_NaN[of "balance (base a)" y]
    by (cases a) (simp_all add: Deposit getBalance_def BankAccount_deposit_def)
next
  case (Withdraw amount)
  with assms(2) obtain y where "amount = Fin y" by (cases amount) simp_all
  then show ?thesis using assms(1) dadd_not_NaN[of "balance (base a)" "- y"]
    by (cases a)
      (simp_all add: Withdraw getBalance_def BankAccount_withdraw_def
        CheckingAccount_withdraw_def dsub_def)
next
  case ApplyMonthlyFee
  show ?thesis
  proof (cases a)
    case (Checking r)
    then show ?thesis using assms(1) dadd_not_NaN[of "balance r" "- 10"]
      by (simp add: ApplyMonthlyFee getBalance_def CheckingAccount_applyMonthlyFee_def
          dsub_def MONTHLY_FEE_def)
  next
    case (Savings r)
    have "dadd (balance r) (dmul (balance r) INTEREST_RATE) \<noteq> NaN"
      using assms(1) Savings by (intro interest_not_NaN) (simp add: getBalance_def)
    then show ?thesis
      by (simp add: Savings ApplyMonthlyFee getBalance_def SavingsAccount_applyMonthlyFee_def)
  qed
qed

lemma perform_all_not_NaN:
  "getBalance a \<noteq> NaN \<Longrightarrow> list_all finite_amount xs \<Longrightarrow>
     getBalance (perform_all a xs) \<noteq> NaN"
  by (induction xs arbitrary: a) (simp_all add: perform_not_NaN)

text \<open>
  A NaN balance is reachable and is never less than anything: depositing NaN into the
  Savings account of \<^verbatim>\<open>main\<close> is accepted (NaN is not \<open>\<le> 0\<close>), and so is every
  withdrawal afterwards.
\<close>

lemma balance_can_become_NaN:
  "perform_all (Savings jane) [Deposit NaN, Withdraw (Fin 1000000)] = Savings (jane\<lparr>balance := NaN\<rparr>)
   \<and> fst (withdraw (Savings (jane\<lparr>balance := NaN\<rparr>)) (Fin 1000000)) = Inr True
   \<and> \<not> dlt NaN (Fin 0) \<and> \<not> dge NaN (Fin 0)"
  by (simp add: BankAccount_deposit_def BankAccount_withdraw_def jane_def dgt_def dge_def dsub_def)

text \<open>
  Claim C7 (balance invariant), as the code has it in double arithmetic. Along every
  sequence of \<^verbatim>\<open>deposit\<close>, \<^verbatim>\<open>withdraw\<close> and \<^verbatim>\<open>applyMonthlyFee\<close> calls on an
  account that a constructor returned:
  \<^item> for a Savings account the comparison \<open>balance < 0\<close> is never true;
  \<^item> for a Checking account the comparison \<open>balance < -100\<close> is never true, provided that
    no withdrawal granted from a finite balance has an amount greater than the exact sum
    \<open>balance + 100\<close>; this holds in particular when in every granted withdrawal the
    binary64 sum \<open>balance + OVERDRAFT_LIMIT\<close> of the overdraft test is not rounded up.
  A balance can become NaN (from a NaN initial balance or amount, or by withdrawing
  \<open>+\<infinity>\<close> from \<open>+\<infinity>\<close>), and a NaN balance meets the two statements only because
  every comparison with NaN is false. When the initial balance is not NaN and every amount
  is finite, the balance is never NaN: it is then a number \<open>\<ge> 0\<close> (Savings) or
  \<open>\<ge> -100\<close> (Checking, under the same proviso), or \<open>+\<infinity>\<close>.
\<close>

theorem balance_invariant:
  "(SavingsAccount_ctor n h b0 = Inr a \<longrightarrow>
      \<not> dlt (getBalance (perform_all a xs)) (Fin 0)
      \<and> (b0 \<noteq> NaN \<and> list_all finite_amount xs \<longrightarrow>
            dle (Fin 0) (getBalance (perform_all a xs))))
   \<and> (CheckingAccount_ctor n h b0 = Inr a \<and> along within_limit a xs \<longrightarrow>
      \<not> dlt (getBalance (perform_all a xs)) (Fin (- 100))
      \<and> (b0 \<noteq> NaN \<and> list_all finite_amount xs \<longrightarrow>
            dle (Fin (- 100)) (getBalance (perform_all a xs))))
   \<and> (CheckingAccount_ctor n h b0 = Inr a \<and> along limit_not_rounded_up a xs \<longrightarrow>
      \<not> dlt (getBalance (perform_all a xs)) (Fin (- 100))
      \<and> (b0 \<noteq> NaN \<and> list_all finite_amount xs \<longrightarrow>
            dle (Fin (- 100)) (getBalance (perform_all a xs))))"
proof -
  have s: "\<not> dlt (getBalance (perform_all a xs)) (Fin 0)"
    if "SavingsAccount_ctor n h b0 = Inr a"
  proof -
    from that have "a = Savings \<lparr>accountNumber = n, accountHolderName = h, balance = b0\<rparr>"
      and "\<not> dlt b0 (Fin 0)"
      by (auto simp: SavingsAccount_ctor_def BankAccount_ctor_def split: if_splits)
    then show ?thesis
      using savings_run[of "\<lparr>accountNumber = n, accountHolderName = h, balance = b0\<rparr>" xs]
      by simp
  qed
  have c: "\<not> dlt (getBalance (perform_all a xs)) (Fin (- 100))"
    if "CheckingAccount_ctor n h b0 = Inr a" and "along within_limit a xs"
  proof -
    from that(1) have a: "a = Checking \<lparr>accountNumber = n, accountHolderName = h, balance = b0\<rparr>"
      and "\<not> dlt b0 (Fin 0)"
      by (auto simp: CheckingAccount_ctor_def BankAccount_ctor_def split: if_splits)
    then have "\<not> dlt b0 (Fin (- 100))" by (cases b0) auto
    then show ?thesis
      using checking_run[of "\<lparr>accountNumber = n, accountHolderName = h, balance = b0\<rparr>" xs]
        that(2) a
      by simp
  qed
  have b: "getBalance a = b0"
    if "SavingsAccount_ctor n h b0 = Inr a \<or> CheckingAccount_ctor n h b0 = Inr a"
    using that
    by (auto simp: SavingsAccount_ctor_def CheckingAccount_ctor_def BankAccount_ctor_def
        getBalance_def split: if_splits)
  have n: "getBalance (perform_all a xs) \<noteq> NaN"
    if "SavingsAccount_ctor n h b0 = Inr a \<or> CheckingAccount_ctor n h b0 = Inr a"
      and "b0 \<noteq> NaN" and "list_all finite_amount xs"
    using perform_all_not_NaN[of a xs] b[OF that(1)] that(2,3) by simp
  have w: "along within_limit a xs" if "along limit_not_rounded_up a xs"
    using that by (rule along_mono[rotated]) (rule not_rounded_up_within_limit)
  show ?thesis
    using s c n w not_dlt_dle[of "getBalance (perform_all a xs)"] by blast
qed

text \<open>
  The two accounts of \<^verbatim>\<open>main\<close>: the Savings account emptied, updated and refused a
  further withdrawal; the Checking account overdrawn to -100, where the fee is not charged.
  A Checking account with the balance 0.1 (the binary64 value next to it), whose overdraft
  sum is rounded, but not up: withdrawing 50 keeps the bound.
\<close>

theorem balance_invariant_witness:
  "SavingsAccount_ctor ''SV001'' ''Jane Smith'' (Fin 1000) = Inr (Savings jane)
   \<and> list_all finite_amount [Withdraw (Fin 1000), ApplyMonthlyFee, Withdraw (Fin 1)]
   \<and> \<not> dlt (getBalance (perform_all (Savings jane)
          [Withdraw (Fin 1000), ApplyMonthlyFee, Withdraw (Fin 1)])) (Fin 0)
   \<and> dle (Fin 0) (getBalance (perform_all (Savings jane)
          [Withdraw (Fin 1000), ApplyMonthlyFee, Withdraw (Fin 1)]))
   \<and> CheckingAccount_ctor ''CH001'' ''John Doe'' (Fin 500) = Inr (Checking john)
   \<and> along within_limit (Checking john) [Deposit (Fin 200), Withdraw (Fin 800), ApplyMonthlyFee]
   \<and> list_all finite_amount [Deposit (Fin 200), Withdraw (Fin 800), ApplyMonthlyFee]
   \<and> \<not> dlt (getBalance (perform_all (Checking john)
          [Deposit (Fin 200), Withdraw (Fin 800), ApplyMonthlyFee])) (Fin (- 100))
   \<and> dle (Fin (- 100)) (getBalance (perform_all (Checking john)
          [Deposit (Fin 200), Withdraw (Fin 800), ApplyMonthlyFee]))
   \<and> rnd (3602879701896397 / 36028797018963968) = Fin (3602879701896397 / 36028797018963968)
   \<and> \<not> exact_sum (Fin (3602879701896397 / 36028797018963968)) OVERDRAFT_LIMIT
   \<and> CheckingAccount_ctor ''CH002'' ''John Doe'' (Fin (3602879701896397 / 36028797018963968)) =
        Inr (Checking \<lparr>accountNumber = ''CH002'', accountHolderName = ''John Doe'',
          balance = Fin (3602879701896397 / 36028797018963968)\<rparr>)
   \<and> along limit_not_rounded_up
        (Checking \<lparr>accountNumber = ''CH002'', accountHolderName = ''John Doe'',
          balance = Fin (3602879701896397 / 36028797018963968)\<rparr>) [Withdraw (Fin 50)]
   \<and> dle (Fin (- 100)) (getBalance (perform_all
        (Checking \<lparr>accountNumber = ''CH002'', accountHolderName = ''John Doe'',
          balance = Fin (3602879701896397 / 36028797018963968)\<rparr>) [Withdraw (Fin 50)]))"
proof -
  let ?xs = "[Withdraw (Fin 1000), ApplyMonthlyFee, Withdraw (Fin 1)]"
  let ?ys = "[Deposit (Fin 200), Withdraw (Fin 800), ApplyMonthlyFee]"
  let ?t = "3602879701896397 / 36028797018963968 :: rat"
  let ?c = "\<lparr>accountNumber = ''CH002'', accountHolderName = ''John Doe'', balance = Fin ?t\<rparr>"
  have s: "SavingsAccount_ctor ''SV001'' ''Jane Smith'' (Fin 1000) = Inr (Savings jane)"
    by (simp add: SavingsAccount_ctor_def BankAccount_ctor_def MINIMUM_BALANCE_def jane_def)
  have c: "CheckingAccount_ctor ''CH001'' ''John Doe'' (Fin 500) = Inr (Checking john)"
    by (simp add: CheckingAccount_ctor_def BankAccount_ctor_def john_def)
  have fx: "list_all finite_amount ?xs" and fy: "list_all finite_amount ?ys"
    and fz: "list_all finite_amount [Withdraw (Fin 50)]" by simp_all
  have d: "perform (Checking john) (Deposit (Fin 200)) = Checking (john\<lparr>balance := Fin 700\<rparr>)"
    by (simp add: john_deposit_200 del: deposit.simps)
  have e: "along within_limit (Checking john) ?ys"
    by (simp add: d getBalance_def del: perform.simps withdraw.simps)
  have t: "rnd ?t = Fin ?t"
    using rnd_dyadic[of 3602879701896397 "- 55"] by simp
  have l: "rnd (?t + 100) = Fin (3521955646092083 / 35184372088832)"
    using rnd_pos_eval[where q = "?t + 100" and e = 6 and m = 7043911292184166, OF _ _ refl]
    by simp
  have x: "\<not> exact_sum (Fin ?t) OVERDRAFT_LIMIT"
    using l by (simp add: OVERDRAFT_LIMIT_def)
  have k: "CheckingAccount_ctor ''CH002'' ''John Doe'' (Fin ?t) = Inr (Checking ?c)"
    by (simp add: CheckingAccount_ctor_def BankAccount_ctor_def)
  have u: "along limit_not_rounded_up (Checking ?c) [Withdraw (Fin 50)]"
    using l by (simp add: getBalance_def OVERDRAFT_LIMIT_def del: withdraw.simps)
  have "\<not> dlt (getBalance (perform_all (Savings jane) ?xs)) (Fin 0)"
    and "dle (Fin 0) (getBalance (perform_all (Savings jane) ?xs))"
    using balance_invariant[of "''SV001''" "''Jane Smith''" "Fin 1000" "Savings jane" ?xs] s fx
    by (simp_all del: perform_all.simps)
  moreover have "\<not> dlt (getBalance (perform_all (Checking john) ?ys)) (Fin (- 100))"
    and "dle (Fin (- 100)) (getBalance (perform_all (Checking john) ?ys))"
    using balance_invariant[of "''CH001''" "''John Doe''" "Fin 500" "Checking john" ?ys] c e fy
    by (simp_all del: perform_all.simps along.simps)
  moreover have "dle (Fin (- 100)) (getBalance (perform_all (Checking ?c) [Withdraw (Fin 50)]))"
    using balance_invariant[of "''CH002''" "''John Doe''" "Fin ?t" "Checking ?c" "[Withdraw (Fin 50)]"]
      k u fz
    by (simp del: perform_all.simps along.simps)
  ultimately show ?thesis
    using s c e fx fy t x k u by (simp del: perform_all.simps along.simps)
qed

text \<open>
  A Checking account constructed with the balance \<open>2^59\<close> accepts the withdrawal of
  \<open>2^59 + 128\<close> and ends at \<open>-128\<close>.
\<close>

theorem balance_invariant_counterexample:
  "rnd (2 ^ 59) = Fin (2 ^ 59) \<and> rnd (2 ^ 59 + 128) = Fin (2 ^ 59 + 128)
   \<and> CheckingAccount_ctor ''CH001'' ''John Doe'' (Fin (2 ^ 59)) =
        Inr (Checking \<lparr>accountNumber = ''CH001'', accountHolderName = ''John Doe'',
          balance = Fin (2 ^ 59)\<rparr>)
   \<and> getBalance (perform_all (Checking \<lparr>accountNumber = ''CH001'', accountHolderName = ''John Doe'',
          balance = Fin (2 ^ 59)\<rparr>) [Withdraw (Fin (2 ^ 59 + 128))]) = Fin (- 128)
   \<and> dlt (Fin (- 128)) (Fin (- 100))"
proof -
  have "dadd (Fin (2 ^ 59)) OVERDRAFT_LIMIT = Fin (2 ^ 59 + 128)"
    using rnd_2p59_100 by (simp add: OVERDRAFT_LIMIT_def)
  moreover have "dsub (Fin (2 ^ 59)) (Fin (2 ^ 59 + 128)) = Fin (- 128)"
    using rnd_int[of "- 128"] by (simp add: dsub_def)
  ultimately show ?thesis
    using rnd_2p59 rnd_2p59_128
    by (simp add: CheckingAccount_ctor_def BankAccount_ctor_def CheckingAccount_withdraw_def
        dgt_def getBalance_def)
qed

section \<open>Construction\<close>

text \<open>
  Claim C6. Constructing an account of either class with an initial balance below zero
  fails with the exception "Initial balance cannot be negative". Constructing a Savings
  account with an initial balance below \<open>MINIMUM_BALANCE = 100\<close> fails, and (the
  non-negativity check having passed) with the exception "Minimum initial balance for
  Savings is ...". In every other case construction succeeds and the object holds exactly
  the given number, holder name and initial balance.
\<close>

theorem construction_validation:
  "(dlt b (Fin 0) \<longrightarrow>
      CheckingAccount_ctor n h b = Inl (BankingException ''Initial balance cannot be negative'') \<and>
      SavingsAccount_ctor n h b = Inl (BankingException ''Initial balance cannot be negative''))
   \<and> (dlt b MINIMUM_BALANCE \<longrightarrow>
      (\<exists>e. SavingsAccount_ctor n h b = Inl e) \<and>
      (\<not> dlt b (Fin 0) \<longrightarrow>
         SavingsAccount_ctor n h b =
           Inl (BankingException ''Minimum initial balance for Savings is $100.000000'')))
   \<and> (\<not> dlt b (Fin 0) \<longrightarrow>
      CheckingAccount_ctor n h b =
        Inr (Checking \<lparr>accountNumber = n, accountHolderName = h, balance = b\<rparr>))
   \<and> (\<not> dlt b (Fin 0) \<and> \<not> dlt b MINIMUM_BALANCE \<longrightarrow>
      SavingsAccount_ctor n h b =
        Inr (Savings \<lparr>accountNumber = n, accountHolderName = h, balance = b\<rparr>))"
  by (simp add: CheckingAccount_ctor_def SavingsAccount_ctor_def BankAccount_ctor_def)

text \<open>The accounts of \<^verbatim>\<open>main\<close>, and a negative and a too small initial balance.\<close>

theorem construction_validation_witness:
  "CheckingAccount_ctor ''CH001'' ''John Doe'' (Fin (- 5)) =
      Inl (BankingException ''Initial balance cannot be negative'')
   \<and> SavingsAccount_ctor ''SV001'' ''Jane Smith'' (Fin (- 5)) =
      Inl (BankingException ''Initial balance cannot be negative'')
   \<and> SavingsAccount_ctor ''SV001'' ''Jane Smith'' (Fin 50) =
      Inl (BankingException ''Minimum initial balance for Savings is $100.000000'')
   \<and> CheckingAccount_ctor ''CH001'' ''John Doe'' (Fin 500) =
      Inr (Checking \<lparr>accountNumber = ''CH001'', accountHolderName = ''John Doe'', balance = Fin 500\<rparr>)
   \<and> SavingsAccount_ctor ''SV001'' ''Jane Smith'' (Fin 1000) =
      Inr (Savings \<lparr>accountNumber = ''SV001'', accountHolderName = ''Jane Smith'', balance = Fin 1000\<rparr>)"
  using construction_validation [of "Fin (- 5)" "''CH001''" "''John Doe''"]
    construction_validation [of "Fin (- 5)" "''SV001''" "''Jane Smith''"]
    construction_validation [of "Fin 50" "''SV001''" "''Jane Smith''"]
    construction_validation [of "Fin 500" "''CH001''" "''John Doe''"]
    construction_validation [of "Fin 1000" "''SV001''" "''Jane Smith''"]
  by (simp add: MINIMUM_BALANCE_def)

text \<open>
  Claim C10. A Savings account with a negative initial balance fails with the base
  constructor's exception "Initial balance cannot be negative" and not with the minimum
  balance exception, because the base constructor runs first; the minimum balance
  exception is thrown exactly for the initial balances \<open>0 \<le> b < MINIMUM_BALANCE\<close>.
\<close>

theorem savings_validation_order:
  "(dlt b (Fin 0) \<longrightarrow>
      SavingsAccount_ctor n h b = Inl (BankingException ''Initial balance cannot be negative'') \<and>
      SavingsAccount_ctor n h b \<noteq>
        Inl (BankingException ''Minimum initial balance for Savings is $100.000000''))
   \<and> (SavingsAccount_ctor n h b =
        Inl (BankingException ''Minimum initial balance for Savings is $100.000000'')
      \<longleftrightarrow> dle (Fin 0) b \<and> dlt b MINIMUM_BALANCE)"
  by (cases b) (auto simp: SavingsAccount_ctor_def BankAccount_ctor_def MINIMUM_BALANCE_def)

text \<open>Initial balances -5, 0 and 100 for a Savings account.\<close>

theorem savings_validation_order_witness:
  "SavingsAccount_ctor ''SV001'' ''Jane Smith'' (Fin (- 5)) =
      Inl (BankingException ''Initial balance cannot be negative'')
   \<and> SavingsAccount_ctor ''SV001'' ''Jane Smith'' (Fin (- 5)) \<noteq>
      Inl (BankingException ''Minimum initial balance for Savings is $100.000000'')
   \<and> SavingsAccount_ctor ''SV001'' ''Jane Smith'' (Fin 0) =
      Inl (BankingException ''Minimum initial balance for Savings is $100.000000'')
   \<and> SavingsAccount_ctor ''SV001'' ''Jane Smith'' (Fin 100) \<noteq>
      Inl (BankingException ''Minimum initial balance for Savings is $100.000000'')"
  using savings_validation_order [of "Fin (- 5)" "''SV001''" "''Jane Smith''"]
    savings_validation_order [of "Fin 0" "''SV001''" "''Jane Smith''"]
    savings_validation_order [of "Fin 100" "''SV001''" "''Jane Smith''"]
  by (simp add: MINIMUM_BALANCE_def)

end
